theory Spec2Isabelle
  imports Complex_Main
begin

section \<open>Data model (src/types, src/lib/db/schema.sql)\<close>

text \<open>
  JavaScript numbers are IEEE-754 binary64. They are modelled as reals, NaN and the
  infinities left out. The arithmetic of \<open>closePosition\<close>, whose stored result an identity
  is claimed of, is rounded after every operation by \<open>binary64\<close> below; the other
  arithmetic of the model is exact. Row ids are naturals, timestamps (\<open>Date.now()\<close>) are
  integers handed to each operation as the argument \<open>now\<close>. The JSON text of an event
  payload is represented by the data that \<open>JSON.stringify\<close> serialises. A division by
  zero is 0 in HOL and an infinity or NaN in JavaScript, so a theorem about a quotient
  carries the hypothesis that its divisor is not zero.
\<close>

datatype PositionSide = LONG | SHORT
datatype PositionStatus = OPEN | CLOSED
datatype EntryType = MARKET | LIMIT
datatype SizeMode = USDT | QTY
datatype PriceMode = PERCENT | PRICE
datatype FillType = FILL_OPEN | FILL_CLOSE | FILL_PARTIAL
datatype EventType =
    SL_TRIGGERED | TP_TRIGGERED | MANUAL_CLOSE | SL_UPDATED | TP_UPDATED | POSITION_CREATED

record Position =
  id_pos :: nat
  symbol :: string
  side :: PositionSide
  qty :: real
  entryPrice :: real
  entryTime :: int
  sl :: "real option"
  tp :: "real option"
  leverage :: real
  status :: PositionStatus
  closePrice :: "real option"
  closeTime :: "int option"
  realizedPnl :: real
  feesOpen :: real
  feesClose :: real
  fundingPnl :: real
  notes_pos :: "string option"

record Fill =
  id_fill :: nat
  positionId_fill :: nat
  type_fill :: FillType
  price_fill :: real
  qty_fill :: real
  fee_fill :: real
  ts_fill :: int

text \<open>
  \<open>UpdatePositionRequest\<close> is \<open>{sl?, tp?}\<close>. A field of the parsed JSON body is absent
  (\<open>undefined\<close>, here \<open>None\<close>), \<open>null\<close> (\<open>Some None\<close>) or a number.
\<close>

record UpdatePositionRequest =
  sl_upd :: "real option option"
  tp_upd :: "real option option"

datatype Payload =
    CreatedPayload EntryType "string option"
  | UpdatedPayload UpdatePositionRequest
  | ClosedPayload real real

record Event =
  id_ev :: nat
  positionId_ev :: nat
  event_ev :: EventType
  payload_ev :: Payload
  ts_ev :: int

record Settings =
  takerFee :: real
  makerFee :: real
  baseBalance :: real

text \<open>
  \<open>CreatePositionRequest\<close>. The body is cast from JSON without a runtime check, so
  \<open>side\<close> is whatever string the client sent; the optional fields are options.
\<close>

record CreatePositionRequest =
  symbol_req :: string
  side_req :: string
  sizeMode :: SizeMode
  sizeValue :: real
  leverage_req :: real
  entryType :: EntryType
  limitPrice :: "real option"
  sl_req :: "real option"
  tp_req :: "real option"
  slMode :: "PriceMode option"
  tpMode :: "PriceMode option"
  notes_req :: "string option"

text \<open>
  The database: the three tables in rowid order, the settings row, and the
  \<open>sqlite_sequence\<close> counters of the three AUTOINCREMENT keys.
\<close>

record Store =
  positions :: "Position list"
  fills :: "Fill list"
  events :: "Event list"
  settings :: Settings
  seq_positions :: nat
  seq_fills :: nat
  seq_events :: nat

datatype db_error = ConstraintFailed | StorageFailed

section \<open>Binary64 arithmetic\<close>

text \<open>
  The result of a JavaScript \<open>+\<close>, \<open>-\<close> or \<open>*\<close> on two doubles is the exact result rounded
  to the nearest double, ties to the even significand. \<open>binary64\<close> is that rounding: the
  unit in the last place of \<open>y > 0\<close> is the power of two \<open>ulp\<close> with
  \<open>2^52 \<le> y / ulp < 2^53\<close>, found by doubling (\<open>scaleUp\<close>) or halving (\<open>scaleDown\<close>), and the
  value is rounded to a multiple of it. The exponent range is not bounded: overflow to an
  infinity and gradual underflow are outside the model.
\<close>

function scaleUp :: "real \<Rightarrow> real" where
  "scaleUp y = (if 2 ^ 53 \<le> y then 2 * scaleUp (y / 2) else 1)"
  by pat_completeness auto
termination
proof (relation "measure (\<lambda>y. nat \<lfloor>y\<rfloor>)")
  show "wf (measure (\<lambda>y::real. nat \<lfloor>y\<rfloor>))" by simp
next
  fix y :: real
  assume y: "2 ^ 53 \<le> y"
  then have "y / 2 \<le> y - 1" by simp
  then have "\<lfloor>y / 2\<rfloor> \<le> \<lfloor>y - 1\<rfloor>" by (rule floor_mono)
  moreover have "1 \<le> \<lfloor>y\<rfloor>" using y by (simp add: le_floor_iff)
  ultimately show "(y / 2, y) \<in> measure (\<lambda>y. nat \<lfloor>y\<rfloor>)" by simp
qed

function scaleDown :: "real \<Rightarrow> real" where
  "scaleDown y = (if 0 < y \<and> y < 2 ^ 52 then scaleDown (2 * y) / 2 else 1)"
  by pat_completeness auto
termination
proof (relation "measure (\<lambda>y. nat \<lceil>2 ^ 52 / y\<rceil>)")
  show "wf (measure (\<lambda>y::real. nat \<lceil>2 ^ 52 / y\<rceil>))" by simp
next
  fix y :: real
  assume y: "0 < y \<and> y < 2 ^ 52"
  let ?z = "2 ^ 52 / y"
  have z: "1 < ?z" using y by simp
  then have m: "2 \<le> \<lceil>?z\<rceil>" by linarith
  have "?z / 2 \<le> of_int \<lceil>?z\<rceil> / 2" by (simp add: le_of_int_ceiling)
  also have "\<dots> \<le> of_int (\<lceil>?z\<rceil> - 1)" using m by simp
  finally have "\<lceil>?z / 2\<rceil> \<le> \<lceil>?z\<rceil> - 1" by (simp only: ceiling_le_iff)
  moreover have "2 ^ 52 / (2 * y) = ?z / 2" by simp
  ultimately have "\<lceil>2 ^ 52 / (2 * y)\<rceil> < \<lceil>?z\<rceil>" by (simp only:)
  moreover have "0 < \<lceil>?z\<rceil>" using m by linarith
  ultimately have "nat \<lceil>2 ^ 52 / (2 * y)\<rceil> < nat \<lceil>?z\<rceil>"
    by (simp only: zless_nat_conj)
  then show "(2 * y, y) \<in> measure (\<lambda>y. nat \<lceil>2 ^ 52 / y\<rceil>)"
    by (simp only: in_measure)
qed

definition roundHalfEven :: "real \<Rightarrow> int" where
  "roundHalfEven q =
     (let n = \<lfloor>q\<rfloor>; r = q - of_int n
      in if r < 1 / 2 then n else if 1 / 2 < r then n + 1 else if even n then n else n + 1)"

definition binary64 :: "real \<Rightarrow> real" where
  "binary64 x =
     (if x = 0 then 0
      else
        let y = \<bar>x\<bar>;
            ulp = (if 2 ^ 53 \<le> y then scaleUp y else scaleDown y)
        in sgn x * (of_int (roundHalfEven (y / ulp)) * ulp))"

declare scaleUp.simps [simp del] scaleDown.simps [simp del]

section \<open>Store queries (src/lib/db/queries.ts)\<close>

text \<open>AUTOINCREMENT: one more than the largest rowid ever used in the table.\<close>

definition next_rowid :: "nat \<Rightarrow> nat list \<Rightarrow> nat" where
  "next_rowid seq ids = Suc (fold max ids seq)"

definition getPositionById :: "Store \<Rightarrow> nat \<Rightarrow> Position option" where
  "getPositionById s i = find (\<lambda>p. id_pos p = i) (positions s)"

text \<open>\<open>ORDER BY entryTime DESC\<close>; rows with equal keys stay in rowid order.\<close>

definition getPositions :: "Store \<Rightarrow> PositionStatus option \<Rightarrow> Position list" where
  "getPositions s st =
     sort_key (\<lambda>p. - entryTime p)
       (case st of
          Some v \<Rightarrow> filter (\<lambda>p. status p = v) (positions s)
        | None \<Rightarrow> positions s)"

definition getAllOpenPositions :: "Store \<Rightarrow> Position list" where
  "getAllOpenPositions s = getPositions s (Some OPEN)"

text \<open>
  Both audit tables carry \<open>FOREIGN KEY(positionId) REFERENCES paper_positions(id)\<close> and
  the connection sets \<open>foreign_keys = ON\<close>: an insert for an unknown position raises.
\<close>

definition createFill ::
  "Store \<Rightarrow> nat \<Rightarrow> FillType \<Rightarrow> real \<Rightarrow> real \<Rightarrow> real \<Rightarrow> int \<Rightarrow> db_error + Store \<times> Fill" where
  "createFill s positionId ty price q fee ts =
     (if getPositionById s positionId = None then Inl ConstraintFailed
      else
        let rowid = next_rowid (seq_fills s) (map id_fill (fills s));
            f = \<lparr>id_fill = rowid, positionId_fill = positionId, type_fill = ty,
                 price_fill = price, qty_fill = q, fee_fill = fee, ts_fill = ts\<rparr>
        in Inr (s\<lparr>fills := fills s @ [f], seq_fills := rowid\<rparr>, f))"

definition createEvent ::
  "Store \<Rightarrow> nat \<Rightarrow> EventType \<Rightarrow> Payload \<Rightarrow> int \<Rightarrow> db_error + Store \<times> Event" where
  "createEvent s positionId ev payload ts =
     (if getPositionById s positionId = None then Inl ConstraintFailed
      else
        let rowid = next_rowid (seq_events s) (map id_ev (events s));
            e = \<lparr>id_ev = rowid, positionId_ev = positionId, event_ev = ev,
                 payload_ev = payload, ts_ev = ts\<rparr>
        in Inr (s\<lparr>events := events s @ [e], seq_events := rowid\<rparr>, e))"

text \<open>
  \<open>closePosition\<close>: the two early returns, the PnL computation (each operation rounded,
  \<open>a - b - c - d\<close> from the left), the
  \<open>UPDATE ... WHERE id = ?\<close>, the CLOSE fill and the event, in the order of the source.
  The result pairs the store after the call with what the call returns
  (\<open>Inr None\<close> is \<open>null\<close>) or raises (\<open>Inl\<close>).
\<close>

definition closeRow :: "real \<Rightarrow> int \<Rightarrow> real \<Rightarrow> real \<Rightarrow> Position \<Rightarrow> Position" where
  "closeRow price now pnl fee p =
     p\<lparr>status := CLOSED, closePrice := Some price, closeTime := Some now,
       realizedPnl := pnl, feesClose := fee\<rparr>"

definition closePosition ::
  "Store \<Rightarrow> nat \<Rightarrow> real \<Rightarrow> real \<Rightarrow> EventType \<Rightarrow> int \<Rightarrow> Store \<times> (db_error + Position option)" where
  "closePosition s i price fee event now =
     (case getPositionById s i of
        None \<Rightarrow> (s, Inr None)
      | Some position \<Rightarrow>
          if status position = CLOSED then (s, Inr None)
          else
            let pnl = (if side position = LONG
                       then binary64 (binary64 (price - entryPrice position) * qty position)
                       else binary64 (binary64 (entryPrice position - price) * qty position));
                realized = binary64 (binary64 (binary64 (pnl - feesOpen position) - fee)
                                       - fundingPnl position);
                s1 = s\<lparr>positions :=
                        map (\<lambda>p. if id_pos p = i then closeRow price now realized fee p else p)
                          (positions s)\<rparr>
            in case createFill s1 i FILL_CLOSE price (qty position) fee now of
                 Inl e \<Rightarrow> (s1, Inl e)
               | Inr (s2, f) \<Rightarrow>
                   (case createEvent s2 i event (ClosedPayload price realized) now of
                      Inl e \<Rightarrow> (s2, Inl e)
                    | Inr (s3, e) \<Rightarrow> (s3, Inr (getPositionById s3 i))))"


text \<open>
  \<open>updatePosition\<close>: the SET list is built from the fields that are not \<open>undefined\<close>;
  with none the function returns the stored row and writes nothing. There is no test of
  \<open>status\<close> in the function or in the PATCH handler that calls it.
\<close>

definition applyUpdate :: "UpdatePositionRequest \<Rightarrow> Position \<Rightarrow> Position" where
  "applyUpdate data p =
     (let p1 = (case sl_upd data of None \<Rightarrow> p | Some v \<Rightarrow> p\<lparr>sl := v\<rparr>)
      in case tp_upd data of None \<Rightarrow> p1 | Some v \<Rightarrow> p1\<lparr>tp := v\<rparr>)"

definition updatePosition ::
  "Store \<Rightarrow> nat \<Rightarrow> UpdatePositionRequest \<Rightarrow> int \<Rightarrow> Store \<times> (db_error + Position option)" where
  "updatePosition s i data now =
     (if sl_upd data = None \<and> tp_upd data = None then (s, Inr (getPositionById s i))
      else
        let s1 = s\<lparr>positions :=
                    map (\<lambda>p. if id_pos p = i then applyUpdate data p else p) (positions s)\<rparr>
        in case createEvent s1 i (if sl_upd data \<noteq> None then SL_UPDATED else TP_UPDATED)
                  (UpdatedPayload data) now of
             Inl e \<Rightarrow> (s1, Inl e)
           | Inr (s2, e) \<Rightarrow> (s2, Inr (getPositionById s2 i)))"

text \<open>
  \<open>createPosition\<close> issues three statements, INSERT position, INSERT fill, INSERT event,
  with no enclosing transaction. The storage layer can raise at any of them (disk full,
  I/O error, lock); \<open>write_fault\<close> names the statement at which it does. The
  \<open>CHECK(side IN ('LONG', 'SHORT'))\<close> of the schema rejects the first insert for any
  other string. \<open>x || null\<close> maps the falsy values \<open>undefined\<close>, \<open>0\<close> and \<open>''\<close> to \<open>null\<close>.
\<close>

datatype write_fault = NoFault | FailInsertPosition | FailInsertFill | FailInsertEvent

definition orNull :: "real option \<Rightarrow> real option" where
  "orNull x = (case x of None \<Rightarrow> None | Some v \<Rightarrow> if v = 0 then None else Some v)"

definition orNullText :: "string option \<Rightarrow> string option" where
  "orNullText x = (case x of None \<Rightarrow> None | Some v \<Rightarrow> if v = [] then None else Some v)"

definition checkSide :: "string \<Rightarrow> PositionSide option" where
  "checkSide x = (if x = ''LONG'' then Some LONG else if x = ''SHORT'' then Some SHORT else None)"

definition createPosition ::
  "Store \<Rightarrow> write_fault \<Rightarrow> CreatePositionRequest \<Rightarrow> real \<Rightarrow> real \<Rightarrow> int
     \<Rightarrow> Store \<times> (db_error + Position option)" where
  "createPosition s fault data price fee now =
     (case checkSide (side_req data) of
        None \<Rightarrow> (s, Inl ConstraintFailed)
      | Some sd \<Rightarrow>
          if fault = FailInsertPosition then (s, Inl StorageFailed)
          else
            let positionId = next_rowid (seq_positions s) (map id_pos (positions s));
                row = \<lparr>id_pos = positionId, symbol = symbol_req data, side = sd,
                       qty = (if sizeMode data = USDT then sizeValue data / price
                              else sizeValue data),
                       entryPrice = price, entryTime = now,
                       sl = orNull (sl_req data), tp = orNull (tp_req data),
                       leverage = leverage_req data, status = OPEN,
                       closePrice = None, closeTime = None, realizedPnl = 0,
                       feesOpen = fee, feesClose = 0, fundingPnl = 0,
                       notes_pos = orNullText (notes_req data)\<rparr>;
                s1 = s\<lparr>positions := positions s @ [row], seq_positions := positionId\<rparr>
            in if fault = FailInsertFill then (s1, Inl StorageFailed)
               else
                 case createFill s1 positionId FILL_OPEN price
                        (if sizeMode data = USDT then sizeValue data / price else sizeValue data)
                        fee now of
                   Inl e \<Rightarrow> (s1, Inl e)
                 | Inr (s2, f) \<Rightarrow>
                     if fault = FailInsertEvent then (s2, Inl StorageFailed)
                     else
                       (case createEvent s2 positionId POSITION_CREATED
                               (CreatedPayload (entryType data) (notes_req data)) now of
                          Inl e \<Rightarrow> (s2, Inl e)
                        | Inr (s3, e) \<Rightarrow> (s3, Inr (getPositionById s3 positionId))))"

section \<open>Calc (src/lib/calc/pnl.ts)\<close>

definition calculateNotional :: "real \<Rightarrow> real \<Rightarrow> real" where
  "calculateNotional q price = q * price"

definition calculateFee :: "real \<Rightarrow> real \<Rightarrow> real" where
  "calculateFee notional feeRate = notional * feeRate"

definition calculateTakerFee :: "Store \<Rightarrow> real \<Rightarrow> real" where
  "calculateTakerFee s notional = calculateFee notional (takerFee (settings s))"

definition shouldTriggerSLLong :: "real \<Rightarrow> real option \<Rightarrow> bool" where
  "shouldTriggerSLLong markPrice x = (case x of None \<Rightarrow> False | Some v \<Rightarrow> markPrice \<le> v)"

definition shouldTriggerTPLong :: "real \<Rightarrow> real option \<Rightarrow> bool" where
  "shouldTriggerTPLong markPrice x = (case x of None \<Rightarrow> False | Some v \<Rightarrow> markPrice \<ge> v)"

definition shouldTriggerSLShort :: "real \<Rightarrow> real option \<Rightarrow> bool" where
  "shouldTriggerSLShort markPrice x = (case x of None \<Rightarrow> False | Some v \<Rightarrow> markPrice \<ge> v)"

definition shouldTriggerTPShort :: "real \<Rightarrow> real option \<Rightarrow> bool" where
  "shouldTriggerTPShort markPrice x = (case x of None \<Rightarrow> False | Some v \<Rightarrow> markPrice \<le> v)"

definition shouldTriggerSL :: "PositionSide \<Rightarrow> real \<Rightarrow> real option \<Rightarrow> bool" where
  "shouldTriggerSL sd markPrice x =
     (if sd = LONG then shouldTriggerSLLong markPrice x else shouldTriggerSLShort markPrice x)"

definition shouldTriggerTP :: "PositionSide \<Rightarrow> real \<Rightarrow> real option \<Rightarrow> bool" where
  "shouldTriggerTP sd markPrice x =
     (if sd = LONG then shouldTriggerTPLong markPrice x else shouldTriggerTPShort markPrice x)"


section \<open>Exchange REST helper (src/lib/binance/rest-api.ts)\<close>







section \<open>POST /api/paper/positions (src/app/api/paper/positions/route.ts)\<close>





section \<open>Trigger engine (src/lib/triggers/engine.ts)\<close>

text \<open>
  What the engine does besides writing to the store is returned as a list of effects:
  the \<open>triggerExecuted\<close> emission and the unsubscription of a symbol without open
  positions. \<open>executeTrigger\<close> catches whatever \<open>closePosition\<close> raises.
\<close>

datatype engine_effect = TriggerExecuted nat EventType real real | Unsubscribe string

definition executeTrigger ::
  "Store \<Rightarrow> nat \<Rightarrow> real \<Rightarrow> EventType \<Rightarrow> int \<Rightarrow> Store \<times> engine_effect list" where
  "executeTrigger s positionId price event now =
     (case find (\<lambda>p. id_pos p = positionId) (getAllOpenPositions s) of
        None \<Rightarrow> (s, [])
      | Some position \<Rightarrow>
          let notional = calculateNotional (qty position) price;
              closeFee = calculateTakerFee s notional
          in case closePosition s positionId price closeFee event now of
               (s', Inr (Some closedPosition)) \<Rightarrow>
                 (s', TriggerExecuted positionId event price (realizedPnl closedPosition)
                      # (if filter (\<lambda>p. symbol p = symbol position) (getAllOpenPositions s') = []
                         then [Unsubscribe (symbol position)] else []))
             | (s', _) \<Rightarrow> (s', []))"

fun triggerLoop ::
  "Store \<Rightarrow> real \<Rightarrow> int \<Rightarrow> Position list \<Rightarrow> Store \<times> engine_effect list" where
  "triggerLoop s markPrice now [] = (s, [])"
| "triggerLoop s markPrice now (position # rest) =
     (if shouldTriggerSL (side position) markPrice (sl position)
      then (case executeTrigger s (id_pos position) markPrice SL_TRIGGERED now of
              (s1, out1) \<Rightarrow>
                (case triggerLoop s1 markPrice now rest of (s2, out2) \<Rightarrow> (s2, out1 @ out2)))
      else if shouldTriggerTP (side position) markPrice (tp position)
      then (case executeTrigger s (id_pos position) markPrice TP_TRIGGERED now of
              (s1, out1) \<Rightarrow>
                (case triggerLoop s1 markPrice now rest of (s2, out2) \<Rightarrow> (s2, out1 @ out2)))
      else triggerLoop s markPrice now rest)"

definition checkTriggersForSymbol ::
  "Store \<Rightarrow> string \<Rightarrow> real \<Rightarrow> int \<Rightarrow> Store \<times> engine_effect list" where
  "checkTriggersForSymbol s tickSymbol markPrice now =
     triggerLoop s markPrice now
       (filter (\<lambda>p. symbol p = tickSymbol) (getAllOpenPositions s))"

section \<open>GET /api/paper/stats: the average R-multiple\<close>

definition orZero :: "real option \<Rightarrow> real" where
  "orZero x = (case x of None \<Rightarrow> 0 | Some v \<Rightarrow> if v = 0 then 0 else v)"

definition rMultiples :: "Position list \<Rightarrow> real list" where
  "rMultiples closedPositions =
     map (\<lambda>pos. let risk = \<bar>entryPrice pos - orZero (sl pos)\<bar>
                in if risk = 0 then 0
                   else let reward = realizedPnl pos / qty pos in reward / risk)
       (filter (\<lambda>pos. sl pos \<noteq> None) closedPositions)"

definition avgRMultiple :: "Position list \<Rightarrow> real" where
  "avgRMultiple closedPositions =
     (let rs = rMultiples closedPositions
      in if length rs > 0 then foldl (\<lambda>sum r. sum + r) 0 rs / real (length rs) else 0)"

definition statsAvgRMultiple :: "Store \<Rightarrow> real" where
  "statsAvgRMultiple s = avgRMultiple (getPositions s (Some CLOSED))"

section \<open>WebSocket client: reconnection (src/lib/binance/ws-client.ts)\<close>

text \<open>
  The part of the client state that reconnection reads and writes, and the handlers of
  the socket's \<open>open\<close> and \<open>close\<close> events. Timers and emissions are returned as effects;
  delays are in milliseconds. The socket itself is not part of the state: \<open>connect\<close> is
  the call made by the reconnect timer, when the previous socket has closed.
\<close>

record WsClient =
  reconnectAttempts :: nat
  isIntentionallyClosed :: bool

datatype ws_effect =
    Emit string | SetReconnectTimeout nat | StartPing | StopPing | ResubscribeAll

definition maxReconnectAttempts :: nat where
  "maxReconnectAttempts = 10"

definition scheduleReconnect :: "WsClient \<Rightarrow> WsClient \<times> ws_effect list" where
  "scheduleReconnect c =
     (if reconnectAttempts c \<ge> maxReconnectAttempts
      then (c, [Emit ''maxReconnectAttemptsReached''])
      else
        let c' = c\<lparr>reconnectAttempts := reconnectAttempts c + 1\<rparr>;
            delay = min (1000 * 2 ^ (reconnectAttempts c' - 1)) 30000
        in (c', [SetReconnectTimeout delay]))"

definition connect :: "WsClient \<Rightarrow> WsClient" where
  "connect c = c\<lparr>isIntentionallyClosed := False\<rparr>"

definition onOpen :: "WsClient \<Rightarrow> WsClient \<times> ws_effect list" where
  "onOpen c = (c\<lparr>reconnectAttempts := 0\<rparr>, [StartPing, ResubscribeAll, Emit ''connected''])"

definition onClose :: "WsClient \<Rightarrow> WsClient \<times> ws_effect list" where
  "onClose c =
     (if \<not> isIntentionallyClosed c
      then (case scheduleReconnect c of (c', out) \<Rightarrow> (c', StopPing # out @ [Emit ''disconnected'']))
      else (c, [StopPing, Emit ''disconnected'']))"


section \<open>Vocabulary of the properties\<close>

text \<open>
  A run of \<open>closePosition\<close> calls on one position, the calls that returned a row, the
  CLOSE fills and the terminal events of a position, and the realized PnL and the store
  that a successful close leaves, written out.
\<close>


definition succeeded :: "db_error + Position option \<Rightarrow> bool" where
  "succeeded r = (case r of Inr (Some p) \<Rightarrow> True | _ \<Rightarrow> False)"

definition closeFills :: "Store \<Rightarrow> nat \<Rightarrow> Fill list" where
  "closeFills s i = filter (\<lambda>f. positionId_fill f = i \<and> type_fill f = FILL_CLOSE) (fills s)"

definition isTerminal :: "EventType \<Rightarrow> bool" where
  "isTerminal ev = (ev = SL_TRIGGERED \<or> ev = TP_TRIGGERED \<or> ev = MANUAL_CLOSE)"

definition terminalEvents :: "Store \<Rightarrow> nat \<Rightarrow> Event list" where
  "terminalEvents s i = filter (\<lambda>e. positionId_ev e = i \<and> isTerminal (event_ev e)) (events s)"

fun closeMany ::
  "Store \<Rightarrow> nat \<Rightarrow> (real \<times> real \<times> EventType \<times> int) list \<Rightarrow> Store \<times> (db_error + Position option) list" where
  "closeMany s i [] = (s, [])"
| "closeMany s i ((price, fee, ev, now) # cs) =
     (case closePosition s i price fee ev now of
        (s1, r) \<Rightarrow> (case closeMany s1 i cs of (s2, rs) \<Rightarrow> (s2, r # rs)))"


definition realizedPnlOf :: "Position \<Rightarrow> real \<Rightarrow> real \<Rightarrow> real" where
  "realizedPnlOf p price fee =
     binary64 (binary64 (binary64
       ((if side p = LONG then binary64 (binary64 (price - entryPrice p) * qty p)
         else binary64 (binary64 (entryPrice p - price) * qty p)) - feesOpen p) - fee)
       - fundingPnl p)"

definition closedStore :: "Store \<Rightarrow> nat \<Rightarrow> Position \<Rightarrow> real \<Rightarrow> real \<Rightarrow> EventType \<Rightarrow> int \<Rightarrow> Store" where
  "closedStore s i p price fee ev now =
    (let realized = realizedPnlOf p price fee;
         fid = next_rowid (seq_fills s) (map id_fill (fills s));
         eid = next_rowid (seq_events s) (map id_ev (events s))
     in s\<lparr>positions := map (\<lambda>q. if id_pos q = i then closeRow price now realized fee q else q) (positions s),
          fills := fills s @ [\<lparr>id_fill = fid, positionId_fill = i, type_fill = FILL_CLOSE,
                 price_fill = price, qty_fill = qty p, fee_fill = fee, ts_fill = now\<rparr>],
          seq_fills := fid,
          events := events s @ [\<lparr>id_ev = eid, positionId_ev = i, event_ev = ev,
                 payload_ev = ClosedPayload price realized, ts_ev = now\<rparr>],
          seq_events := eid\<rparr>)"

section \<open>Example data\<close>

text \<open>Scenario S1 of the specification: a LONG of 10 units entered at 100.\<close>


definition demoSettings :: Settings where
  "demoSettings = \<lparr>takerFee = 4 / 10000, makerFee = 2 / 10000, baseBalance = 10000\<rparr>"

definition demoLong :: Position where
  "demoLong = \<lparr>id_pos = 1, symbol = ''BTCUSDT'', side = LONG, qty = 10, entryPrice = 100,
     entryTime = 1000, sl = Some 95, tp = Some 110, leverage = 1, status = OPEN,
     closePrice = None, closeTime = None, realizedPnl = 0, feesOpen = 4 / 10, feesClose = 0,
     fundingPnl = 0, notes_pos = None\<rparr>"

definition demoStore :: Store where
  "demoStore = \<lparr>positions = [demoLong],
     fills = [\<lparr>id_fill = 1, positionId_fill = 1, type_fill = FILL_OPEN, price_fill = 100,
               qty_fill = 10, fee_fill = 4 / 10, ts_fill = 1000\<rparr>],
     events = [\<lparr>id_ev = 1, positionId_ev = 1, event_ev = POSITION_CREATED,
                payload_ev = CreatedPayload MARKET None, ts_ev = 1000\<rparr>],
     settings = demoSettings, seq_positions = 1, seq_fills = 1, seq_events = 1\<rparr>"

definition demoLongClosed :: Position where
  "demoLongClosed = demoLong\<lparr>status := CLOSED, closePrice := Some 110, closeTime := Some 2000,
     realizedPnl := 3488882336328581 / 35184372088832, feesClose := 44 / 100\<rparr>"

definition demoClosedStore :: Store where
  "demoClosedStore = demoStore\<lparr>positions := [demoLongClosed],
     fills := fills demoStore @
       [\<lparr>id_fill = 2, positionId_fill = 1, type_fill = FILL_CLOSE, price_fill = 110,
         qty_fill = 10, fee_fill = 44 / 100, ts_fill = 2000\<rparr>],
     seq_fills := 2,
     events := events demoStore @
       [\<lparr>id_ev = 2, positionId_ev = 1, event_ev = TP_TRIGGERED,
         payload_ev = ClosedPayload 110 (3488882336328581 / 35184372088832),
         ts_ev = 2000\<rparr>],
     seq_events := 2\<rparr>"

text \<open>
  A LONG of 1 unit entered at 3 and closed at 2 with the taker rate 0.0004: the opening
  fee is the double \<open>3 * 0.0004\<close>, the closing fee the double \<open>2 * 0.0004\<close>.
\<close>

definition demoTiny :: Position where
  "demoTiny = demoLong\<lparr>qty := 1, entryPrice := 3, sl := None, tp := None,
     feesOpen := 2767011611056433 / 2305843009213693952\<rparr>"

definition demoTinyFee :: real where
  "demoTinyFee = 7378697629483821 / 9223372036854775808"

definition demoTinyStore :: Store where
  "demoTinyStore = demoStore\<lparr>positions := [demoTiny]\<rparr>"

definition demoTinyClosed :: Position where
  "demoTinyClosed = demoTiny\<lparr>status := CLOSED, closePrice := Some 2, closeTime := Some 2000,
     realizedPnl := - 4512606826625237 / 4503599627370496, feesClose := demoTinyFee\<rparr>"

text \<open>Two rows that agree on every column other than \<open>sl\<close> and \<open>tp\<close>.\<close>

definition sameExceptSlTp :: "Position \<Rightarrow> Position \<Rightarrow> bool" where
  "sameExceptSlTp p q =
     (id_pos q = id_pos p \<and> symbol q = symbol p \<and> side q = side p \<and> qty q = qty p
      \<and> entryPrice q = entryPrice p \<and> entryTime q = entryTime p \<and> leverage q = leverage p
      \<and> status q = status p \<and> closePrice q = closePrice p \<and> closeTime q = closeTime p
      \<and> realizedPnl q = realizedPnl p \<and> feesOpen q = feesOpen p \<and> feesClose q = feesClose p
      \<and> fundingPnl q = fundingPnl p \<and> notes_pos q = notes_pos p)"

definition noUpdate :: UpdatePositionRequest where
  "noUpdate = \<lparr>sl_upd = None, tp_upd = None\<rparr>"

definition slUpdate :: UpdatePositionRequest where
  "slUpdate = \<lparr>sl_upd = Some (Some 90), tp_upd = None\<rparr>"

definition demoSlUpdatedStore :: Store where
  "demoSlUpdatedStore = demoStore\<lparr>positions := [demoLong\<lparr>sl := Some 90\<rparr>],
     events := events demoStore @
       [\<lparr>id_ev = 2, positionId_ev = 1, event_ev = SL_UPDATED,
         payload_ev = UpdatedPayload slUpdate, ts_ev = 4000\<rparr>],
     seq_events := 2\<rparr>"

definition demoClosedSlUpdatedStore :: Store where
  "demoClosedSlUpdatedStore = demoClosedStore\<lparr>positions := [demoLongClosed\<lparr>sl := Some 90\<rparr>],
     events := events demoClosedStore @
       [\<lparr>id_ev = 3, positionId_ev = 1, event_ev = SL_UPDATED,
         payload_ev = UpdatedPayload slUpdate, ts_ev = 4000\<rparr>],
     seq_events := 3\<rparr>"

definition emptyStore :: Store where
  "emptyStore = \<lparr>positions = [], fills = [], events = [], settings = demoSettings,
     seq_positions = 0, seq_fills = 0, seq_events = 0\<rparr>"

definition demoPositionData :: CreatePositionRequest where
  "demoPositionData = \<lparr>symbol_req = ''BTCUSDT'', side_req = ''LONG'', sizeMode = USDT,
     sizeValue = 1000, leverage_req = 1, entryType = MARKET, limitPrice = None,
     sl_req = Some 95, tp_req = Some 110, slMode = Some PERCENT, tpMode = Some PERCENT,
     notes_req = None\<rparr>"



definition demoOrphanStore :: Store where
  "demoOrphanStore = emptyStore\<lparr>positions := [demoLong], seq_positions := 1\<rparr>"






text \<open>
  The average R-multiple in the words of the specification: the mean of
  \<open>(realizedPnl / qty) / |entryPrice - sl|\<close> over the closed positions with a stop-loss
  and a non-zero risk, the others counting neither in the sum nor in the divisor.
\<close>

definition hasRisk :: "Position \<Rightarrow> bool" where
  "hasRisk p = (case sl p of None \<Rightarrow> False | Some v \<Rightarrow> \<bar>entryPrice p - v\<bar> \<noteq> 0)"

definition rOf :: "Position \<Rightarrow> real" where
  "rOf p = (case sl p of None \<Rightarrow> 0 | Some v \<Rightarrow> (realizedPnl p / qty p) / \<bar>entryPrice p - v\<bar>)"

definition specAvgRMultiple :: "Position list \<Rightarrow> real" where
  "specAvgRMultiple closedPositions =
     (let xs = filter hasRisk closedPositions
      in if xs = [] then 0 else sum_list (map rOf xs) / real (length xs))"

text \<open>
  Two closed positions: the first risked 5 per unit and made 10 per unit, the second
  had its stop-loss at the entry price.
\<close>

definition demoWinner :: Position where
  "demoWinner = demoLongClosed\<lparr>realizedPnl := 100\<rparr>"

definition demoNoRisk :: Position where
  "demoNoRisk = demoLongClosed\<lparr>id_pos := 2, sl := Some 100, realizedPnl := 50\<rparr>"

definition demoStatsStore :: Store where
  "demoStatsStore = demoClosedStore\<lparr>positions := [demoWinner, demoNoRisk]\<rparr>"

text \<open>
  A client after a successful OPEN, and a run of consecutive failed connections: each
  \<open>close\<close> event is handled, and the reconnect timer, if one was set, calls \<open>connect\<close>,
  whose socket closes again.
\<close>

definition openedClient :: WsClient where
  "openedClient = \<lparr>reconnectAttempts = 0, isIntentionallyClosed = False\<rparr>"

definition isTimeout :: "ws_effect \<Rightarrow> bool" where
  "isTimeout x = (case x of SetReconnectTimeout d \<Rightarrow> True | _ \<Rightarrow> False)"

fun failedConnections :: "nat \<Rightarrow> WsClient \<Rightarrow> WsClient \<times> ws_effect list" where
  "failedConnections 0 c = (c, [])"
| "failedConnections (Suc k) c =
     (case onClose c of
        (c1, out1) \<Rightarrow>
          if list_ex isTimeout out1
          then (case failedConnections k (connect c1) of (c2, out2) \<Rightarrow> (c2, out1 @ out2))
          else (c1, out1))"

definition backoffRound :: "nat \<Rightarrow> ws_effect list" where
  "backoffRound n =
     [StopPing, SetReconnectTimeout (min 30000 (2 ^ (n - 1) * 1000)), Emit ''disconnected'']"

definition giveUpRound :: "ws_effect list" where
  "giveUpRound = [StopPing, Emit ''maxReconnectAttemptsReached'', Emit ''disconnected'']"

text \<open>
  The events of one position in the audit log, the triggers that a tick emitted for one
  position, and the trigger that the loop takes for a position of its snapshot.
\<close>

definition eventsFor :: "Store \<Rightarrow> nat \<Rightarrow> Event list" where
  "eventsFor s i = filter (\<lambda>e. positionId_ev e = i) (events s)"

fun triggersFor :: "nat \<Rightarrow> engine_effect list \<Rightarrow> EventType list" where
  "triggersFor i [] = []"
| "triggersFor i (TriggerExecuted j ev price pnl # out) =
     (if j = i then ev # triggersFor i out else triggersFor i out)"
| "triggersFor i (Unsubscribe x # out) = triggersFor i out"

definition firedEvent :: "real \<Rightarrow> Position \<Rightarrow> EventType list" where
  "firedEvent markPrice q =
     (if shouldTriggerSL (side q) markPrice (sl q) then [SL_TRIGGERED]
      else if shouldTriggerTP (side q) markPrice (tp q) then [TP_TRIGGERED] else [])"

definition fired :: "real \<Rightarrow> Position list \<Rightarrow> nat \<Rightarrow> EventType list" where
  "fired markPrice ps i =
     (case find (\<lambda>q. id_pos q = i) ps of None \<Rightarrow> [] | Some q \<Rightarrow> firedEvent markPrice q)"

text \<open>Scenario S3: a LONG whose stop-loss 95 and take-profit 94 both hold at mark 94.\<close>

definition demoBoth :: Position where
  "demoBoth = demoLong\<lparr>tp := Some 94\<rparr>"

definition demoBothStore :: Store where
  "demoBothStore = demoStore\<lparr>positions := [demoBoth]\<rparr>"

section \<open>Rounding\<close>

lemma scaleDown_pow:
  "0 < y \<Longrightarrow> 2 ^ 52 \<le> y * 2 ^ k \<Longrightarrow> y * 2 ^ k < 2 ^ 53 \<Longrightarrow> scaleDown y = 1 / 2 ^ k"
proof (induction k arbitrary: y)
  case 0
  then show ?case by (simp add: scaleDown.simps)
next
  case (Suc k)
  have "y * 2 \<le> y * 2 ^ Suc k" using Suc.prems(1) by simp
  with Suc.prems(3) have small: "y < 2 ^ 52" by simp
  have "scaleDown (2 * y) = 1 / 2 ^ k"
    using Suc.prems by (intro Suc.IH) (simp_all add: mult.assoc mult.left_commute)
  with small Suc.prems(1) show ?case
    by (subst scaleDown.simps) simp
qed

lemma scaleUp_pow:
  "2 ^ 52 \<le> y / 2 ^ k \<Longrightarrow> y / 2 ^ k < 2 ^ 53 \<Longrightarrow> scaleUp y = 2 ^ k"
proof (induction k arbitrary: y)
  case 0
  then show ?case by (simp add: scaleUp.simps)
next
  case (Suc k)
  have big: "2 ^ 53 \<le> y" 
  proof -
    have "2 ^ 52 * 2 ^ Suc k \<le> y" using Suc.prems(1) by (simp add: field_simps)
    moreover have "(2::real) ^ 53 \<le> 2 ^ 52 * 2 ^ Suc k" by simp
    ultimately show ?thesis by linarith
  qed
  have "scaleUp (y / 2) = 2 ^ k"
    using Suc.prems by (intro Suc.IH) (simp_all add: field_simps)
  with big show ?case
    by (subst scaleUp.simps) simp
qed

lemma binary64_small:
  assumes "x \<noteq> 0" and "2 ^ 52 \<le> \<bar>x\<bar> * 2 ^ k" and "\<bar>x\<bar> * 2 ^ k < 2 ^ 53"
  shows "binary64 x = sgn x * (of_int (roundHalfEven (\<bar>x\<bar> * 2 ^ k)) / 2 ^ k)"
proof -
  have pos: "0 < \<bar>x\<bar>" using assms(1) by simp
  have "\<bar>x\<bar> \<le> \<bar>x\<bar> * 2 ^ k" using pos by simp
  with assms(3) have lt: "\<bar>x\<bar> < 2 ^ 53" by linarith
  have "scaleDown \<bar>x\<bar> = 1 / 2 ^ k" by (rule scaleDown_pow [OF pos assms(2,3)])
  with assms(1) lt show ?thesis by (simp add: binary64_def Let_def)
qed

lemma roundHalfEven_error: "\<bar>of_int (roundHalfEven q) - q\<bar> \<le> 1 / 2"
proof -
  have "of_int \<lfloor>q\<rfloor> \<le> q" "q < of_int \<lfloor>q\<rfloor> + 1" by linarith+
  then show ?thesis
    by (auto simp: roundHalfEven_def Let_def)
qed

lemma scaleUp_bound: "2 ^ 52 \<le> y \<Longrightarrow> 0 < scaleUp y \<and> 2 ^ 52 * scaleUp y \<le> y"
proof (induction y rule: scaleUp.induct)
  case (1 y)
  show ?case
  proof (cases "2 ^ 53 \<le> y")
    case True
    then have "2 ^ 52 \<le> y / 2" by simp
    from "1.IH" [OF True this] True show ?thesis
      by (subst (1 2) scaleUp.simps) simp
  next
    case False
    with "1.prems" show ?thesis by (subst (1 2) scaleUp.simps) simp
  qed
qed

lemma scaleDown_bound: "0 < y \<Longrightarrow> 0 < scaleDown y \<and> 2 ^ 52 * scaleDown y \<le> y"
proof (induction y rule: scaleDown.induct)
  case (1 y)
  show ?case
  proof (cases "0 < y \<and> y < 2 ^ 52")
    case True
    then have "0 < 2 * y" by simp
    from "1.IH" [OF True this] True show ?thesis
      by (subst (1 2) scaleDown.simps) simp
  next
    case False
    with "1.prems" show ?thesis by (subst (1 2) scaleDown.simps) simp
  qed
qed

lemma binary64_error: "\<bar>binary64 x - x\<bar> \<le> \<bar>x\<bar> / 2 ^ 53"
proof (cases "x = 0")
  case True
  then show ?thesis by (simp add: binary64_def)
next
  case False
  define y where "y = \<bar>x\<bar>"
  define s where "s = (if 2 ^ 53 \<le> y then scaleUp y else scaleDown y)"
  define n where "n = roundHalfEven (y / s)"
  have y: "0 < y" using False by (simp add: y_def)
  have s: "0 < s \<and> 2 ^ 52 * s \<le> y"
    using scaleUp_bound [of y] scaleDown_bound [OF y] by (auto simp: s_def)
  have b: "binary64 x = sgn x * (of_int n * s)"
    using False by (simp add: binary64_def Let_def y_def s_def n_def)
  have x: "x = sgn x * y" by (simp add: y_def) (metis mult_sgn_abs mult.commute)
  have "binary64 x - x = sgn x * (of_int n * s - y)"
    by (subst b, subst (2) x) (simp add: algebra_simps)
  then have "\<bar>binary64 x - x\<bar> = \<bar>of_int n * s - y\<bar>"
    using False by (simp add: abs_mult abs_sgn_eq)
  also have "of_int n * s - y = (of_int n - y / s) * s" using s by (simp add: field_simps)
  also have "\<bar>\<dots>\<bar> = \<bar>of_int n - y / s\<bar> * s" using s by (simp add: abs_mult)
  also have "\<dots> \<le> (1 / 2) * s"
    using roundHalfEven_error [of "y / s"] s by (intro mult_right_mono) (simp_all add: n_def)
  also have "\<dots> \<le> y / 2 ^ 53" using s by simp
  finally show ?thesis by (simp add: y_def)
qed

lemma binary64_abs: "\<bar>binary64 x\<bar> \<le> 2 * \<bar>x\<bar>"
proof -
  have "\<bar>binary64 x\<bar> \<le> \<bar>binary64 x - x\<bar> + \<bar>x\<bar>" by linarith
  also have "\<dots> \<le> \<bar>x\<bar> / 2 ^ 53 + \<bar>x\<bar>" using binary64_error [of x] by simp
  also have "\<dots> \<le> 2 * \<bar>x\<bar>" by simp
  finally show ?thesis .
qed

text \<open>
  The rounding error of the five operations that compute the realized PnL from the price
  difference \<open>d\<close>, the quantity and the three amounts subtracted.
\<close>

lemma pnl_rounding_bound:
  fixes d q fo fc fp :: real
  defines "g \<equiv> binary64 (binary64 d * q)"
  defines "r \<equiv> binary64 (binary64 (binary64 (g - fo) - fc) - fp)"
  shows "\<bar>r + fo + fc + fp - d * q\<bar> \<le> (\<bar>d * q\<bar> + \<bar>fo\<bar> + \<bar>fc\<bar> + \<bar>fp\<bar>) / 2 ^ 48"
proof -
  define A where "A = \<bar>d * q\<bar>"
  define a where "a = binary64 (g - fo)"
  define b where "b = binary64 (a - fc)"
  have r: "r = binary64 (b - fp)" by (simp add: r_def a_def b_def)
  have A0: "0 \<le> A" by (simp add: A_def)
  have "\<bar>binary64 d * q - d * q\<bar> = \<bar>binary64 d - d\<bar> * \<bar>q\<bar>"
    by (simp add: abs_mult [symmetric] algebra_simps)
  also have "\<dots> \<le> (\<bar>d\<bar> / 2 ^ 53) * \<bar>q\<bar>"
    by (intro mult_right_mono binary64_error) simp
  also have "\<dots> = A / 2 ^ 53" by (simp add: A_def abs_mult)
  finally have m1: "\<bar>binary64 d * q - d * q\<bar> \<le> A / 2 ^ 53" .
  have "\<bar>binary64 d * q\<bar> = \<bar>binary64 d\<bar> * \<bar>q\<bar>" by (simp add: abs_mult)
  also have "\<dots> \<le> (2 * \<bar>d\<bar>) * \<bar>q\<bar>"
    by (intro mult_right_mono binary64_abs) simp
  also have "\<dots> = 2 * A" by (simp add: A_def abs_mult)
  finally have m2: "\<bar>binary64 d * q\<bar> \<le> 2 * A" .
  have "\<bar>g - binary64 d * q\<bar> \<le> \<bar>binary64 d * q\<bar> / 2 ^ 53"
    unfolding g_def by (rule binary64_error)
  with m2 have m3: "\<bar>g - binary64 d * q\<bar> \<le> 2 * A / 2 ^ 53" by simp
  from m1 m3 have e0: "\<bar>g - d * q\<bar> \<le> 3 * A / 2 ^ 53" by linarith
  have "\<bar>g\<bar> \<le> \<bar>g - d * q\<bar> + A" unfolding A_def by linarith
  with e0 A0 have g: "\<bar>g\<bar> \<le> 2 * A" by simp
  have e1: "\<bar>a - (g - fo)\<bar> \<le> \<bar>g - fo\<bar> / 2 ^ 53"
    unfolding a_def by (rule binary64_error)
  have a: "\<bar>a\<bar> \<le> 2 * \<bar>g - fo\<bar>" unfolding a_def by (rule binary64_abs)
  have e2: "\<bar>b - (a - fc)\<bar> \<le> \<bar>a - fc\<bar> / 2 ^ 53"
    unfolding b_def by (rule binary64_error)
  have b: "\<bar>b\<bar> \<le> 2 * \<bar>a - fc\<bar>" unfolding b_def by (rule binary64_abs)
  have e3: "\<bar>r - (b - fp)\<bar> \<le> \<bar>b - fp\<bar> / 2 ^ 53"
    unfolding r by (rule binary64_error)
  have x1: "\<bar>g - fo\<bar> \<le> 2 * A + \<bar>fo\<bar>" using g by linarith
  have x2: "\<bar>a - fc\<bar> \<le> 4 * A + 2 * \<bar>fo\<bar> + \<bar>fc\<bar>"
  proof -
    have "\<bar>a - fc\<bar> \<le> \<bar>a\<bar> + \<bar>fc\<bar>" by (rule abs_triangle_ineq4)
    also have "\<dots> \<le> 2 * (2 * A + \<bar>fo\<bar>) + \<bar>fc\<bar>"
      using order_trans [OF a mult_left_mono [OF x1, of 2]] by simp
    finally show ?thesis by simp
  qed
  have x3: "\<bar>b - fp\<bar> \<le> 8 * A + 4 * \<bar>fo\<bar> + 2 * \<bar>fc\<bar> + \<bar>fp\<bar>"
  proof -
    have "\<bar>b - fp\<bar> \<le> \<bar>b\<bar> + \<bar>fp\<bar>" by (rule abs_triangle_ineq4)
    also have "\<dots> \<le> 2 * (4 * A + 2 * \<bar>fo\<bar> + \<bar>fc\<bar>) + \<bar>fp\<bar>"
      using order_trans [OF b mult_left_mono [OF x2, of 2]] by simp
    finally show ?thesis by simp
  qed
  have y1: "\<bar>a - (g - fo)\<bar> \<le> (2 * A + \<bar>fo\<bar>) / 2 ^ 53"
    using e1 x1 by (simp add: field_simps)
  have y2: "\<bar>b - (a - fc)\<bar> \<le> (4 * A + 2 * \<bar>fo\<bar> + \<bar>fc\<bar>) / 2 ^ 53"
    using e2 x2 by (simp add: field_simps)
  have y3: "\<bar>r - (b - fp)\<bar> \<le> (8 * A + 4 * \<bar>fo\<bar> + 2 * \<bar>fc\<bar> + \<bar>fp\<bar>) / 2 ^ 53"
    using e3 x3 by (simp add: field_simps)
  have "r + fo + fc + fp - d * q
          = (r - (b - fp)) + (b - (a - fc)) + (a - (g - fo)) + (g - d * q)" by simp
  then have "\<bar>r + fo + fc + fp - d * q\<bar>
          \<le> \<bar>r - (b - fp)\<bar> + \<bar>b - (a - fc)\<bar> + \<bar>a - (g - fo)\<bar> + \<bar>g - d * q\<bar>"
    by linarith
  also have "\<dots> \<le> (17 * A + 7 * \<bar>fo\<bar> + 3 * \<bar>fc\<bar> + \<bar>fp\<bar>) / 2 ^ 53"
    using y1 y2 y3 e0 by (simp add: field_simps)
  also have "\<dots> \<le> (32 * (A + \<bar>fo\<bar> + \<bar>fc\<bar> + \<bar>fp\<bar>)) / 2 ^ 53"
    using A0 by (intro divide_right_mono) simp_all
  also have "\<dots> = (A + \<bar>fo\<bar> + \<bar>fc\<bar> + \<bar>fp\<bar>) / 2 ^ 48" by simp
  finally show ?thesis by (simp add: A_def)
qed

section \<open>Closing a position\<close>

lemma id_pos_closeRow [simp]: "id_pos (closeRow price now pnl fee p) = id_pos p"
  by (simp add: closeRow_def)

lemma find_map_row:
  assumes "\<And>p. id_pos (f p) = id_pos p"
  shows "find (\<lambda>p. id_pos p = i) (map (\<lambda>p. if id_pos p = i then f p else p) xs)
         = map_option f (find (\<lambda>p. id_pos p = i) xs)"
  using assms by (induction xs) auto

lemma find_map_row_other:
  assumes "\<And>p. id_pos (f p) = id_pos p" and "j \<noteq> i"
  shows "find (\<lambda>p. id_pos p = j) (map (\<lambda>p. if id_pos p = i then f p else p) xs)
         = find (\<lambda>p. id_pos p = j) xs"
  using assms by (induction xs) auto


lemma closePosition_open:
  assumes "getPositionById s i = Some p" and "status p = OPEN"
  shows "closePosition s i price fee ev now =
           (closedStore s i p price fee ev now,
            Inr (Some (closeRow price now (realizedPnlOf p price fee) fee p)))"
  using assms
  by (simp add: closePosition_def createFill_def createEvent_def getPositionById_def
      find_map_row Let_def closedStore_def realizedPnlOf_def)

lemma closePosition_closed:
  assumes "getPositionById s i = Some p" and "status p = CLOSED"
  shows "closePosition s i price fee ev now = (s, Inr None)"
  using assms by (simp add: closePosition_def)

lemma closePosition_missing:
  assumes "getPositionById s i = None"
  shows "closePosition s i price fee ev now = (s, Inr None)"
  using assms by (simp add: closePosition_def)


lemma getPositionById_closedStore:
  assumes "getPositionById s i = Some p"
  shows "\<exists>p'. getPositionById (closedStore s i p price fee ev now) i = Some p' \<and> status p' = CLOSED"
  using assms
  by (simp add: closedStore_def getPositionById_def find_map_row Let_def closeRow_def)

lemma closeFills_closedStore:
  "length (closeFills (closedStore s i p price fee ev now) i) = Suc (length (closeFills s i))"
  by (simp add: closedStore_def closeFills_def Let_def)

lemma terminalEvents_closedStore:
  "length (terminalEvents (closedStore s i p price fee ev now) i) \<le> Suc (length (terminalEvents s i))"
  by (simp add: closedStore_def terminalEvents_def Let_def)

lemma closeMany_inert:
  assumes "getPositionById s i = None \<or> (\<exists>p. getPositionById s i = Some p \<and> status p = CLOSED)"
  shows "closeMany s i calls = (s, map (\<lambda>c. Inr None) calls)"
  using assms
proof (induction calls)
  case Nil
  then show ?case by simp
next
  case (Cons c cs)
  obtain price fee ev now where c: "c = (price, fee, ev, now)" by (cases c) auto
  from Cons.prems have "closePosition s i price fee ev now = (s, Inr None)"
    by (auto simp: closePosition_closed closePosition_missing)
  with Cons c show ?case by simp
qed

lemma succeeded_simps [simp]:
  "succeeded (Inr None) = False" "succeeded (Inr (Some p)) = True" "succeeded (Inl e) = False"
  by (simp_all add: succeeded_def)

lemma filter_succeeded_inert [simp]:
  "filter succeeded (map (\<lambda>c. Inr None) calls) = []"
  by (induction calls) auto

lemma closeMany_open:
  assumes "getPositionById s i = Some p" and "status p = OPEN"
  shows "closeMany s i ((price, fee, ev, now) # cs) =
           (closedStore s i p price fee ev now,
            Inr (Some (closeRow price now (realizedPnlOf p price fee) fee p))
            # map (\<lambda>c. Inr None) cs)"
proof -
  from getPositionById_closedStore [OF assms(1)]
  have "closeMany (closedStore s i p price fee ev now) i cs
          = (closedStore s i p price fee ev now, map (\<lambda>c. Inr None) cs)"
    by (intro closeMany_inert) blast
  then show ?thesis
    by (simp add: closePosition_open [OF assms])
qed

text \<open>
  C1. A \<open>closePosition\<close> on a position whose stored status is CLOSED returns \<open>null\<close> and
  leaves the whole store as it was, and so does every later call of a run. In any run of
  \<open>closePosition\<close> calls on one position at most one call returns a row; the run adds
  exactly one CLOSE fill per call that returned a row (so at most one), and at most one
  terminal event; a position that starts the run without a CLOSE fill and without a
  terminal event ends it with at most one of each.
\<close>

theorem closePosition_at_most_once:
  "(getPositionById s i = Some p \<and> status p = CLOSED \<longrightarrow>
      closePosition s i price fee ev now = (s, Inr None)
    \<and> closeMany s i calls = (s, map (\<lambda>c. Inr None) calls))
   \<and> (closeMany s i calls = (s', rs) \<longrightarrow>
        length (filter succeeded rs) \<le> 1
      \<and> length (closeFills s' i) = length (closeFills s i) + length (filter succeeded rs)
      \<and> length (terminalEvents s' i) \<le> length (terminalEvents s i) + length (filter succeeded rs)
      \<and> (closeFills s i = [] \<and> terminalEvents s i = [] \<longrightarrow>
            length (closeFills s' i) \<le> 1 \<and> length (terminalEvents s' i) \<le> 1))"
proof (intro conjI impI)
  assume a: "getPositionById s i = Some p \<and> status p = CLOSED"
  then show "closePosition s i price fee ev now = (s, Inr None)"
    by (simp add: closePosition_closed)
  from a show "closeMany s i calls = (s, map (\<lambda>c. Inr None) calls)"
    by (intro closeMany_inert) blast
next
  assume run: "closeMany s i calls = (s', rs)"
  have "length (filter succeeded rs) \<le> 1
      \<and> length (closeFills s' i) = length (closeFills s i) + length (filter succeeded rs)
      \<and> length (terminalEvents s' i) \<le> length (terminalEvents s i) + length (filter succeeded rs)"
  proof (cases "\<exists>q. getPositionById s i = Some q \<and> status q = OPEN")
    case False
    then have "getPositionById s i = None \<or> (\<exists>q. getPositionById s i = Some q \<and> status q = CLOSED)"
      by (cases "getPositionById s i") (auto intro: PositionStatus.exhaust)
    from closeMany_inert [OF this, of calls] run show ?thesis by auto
  next
    case True
    then obtain q where q: "getPositionById s i = Some q" "status q = OPEN" by blast
    show ?thesis
    proof (cases calls)
      case Nil
      with run show ?thesis by auto
    next
      case (Cons c cs)
      obtain price' fee' ev' now' where c: "c = (price', fee', ev', now')" by (cases c) auto
      from closeMany_open [OF q, of price' fee' ev' now' cs] run Cons c
      have s': "s' = closedStore s i q price' fee' ev' now'"
        and rs: "length (filter succeeded rs) = 1" by auto
      show ?thesis
        using closeFills_closedStore [of s i q price' fee' ev' now']
          terminalEvents_closedStore [of s i q price' fee' ev' now']
        by (simp add: s' rs)
    qed
  qed
  then show "length (filter succeeded rs) \<le> 1"
    and "length (closeFills s' i) = length (closeFills s i) + length (filter succeeded rs)"
    and "length (terminalEvents s' i) \<le> length (terminalEvents s i) + length (filter succeeded rs)"
    and "closeFills s i = [] \<and> terminalEvents s i = [] \<Longrightarrow> length (closeFills s' i) \<le> 1"
    and "closeFills s i = [] \<and> terminalEvents s i = [] \<Longrightarrow> length (terminalEvents s' i) \<le> 1"
    by simp_all
qed


lemma demo_get: "getPositionById demoStore 1 = Some demoLong"
  by code_simp

lemma demo_status: "status demoLong = OPEN"
  by (simp add: demoLong_def)

lemma demo_realized:
  "realizedPnlOf demoLong 110 (44 / 100) = 3488882336328581 / 35184372088832"
proof -
  have row: "side demoLong = LONG" "entryPrice demoLong = 100" "qty demoLong = 10"
    "feesOpen demoLong = 4 / 10" "fundingPnl demoLong = 0"
    by (simp_all add: demoLong_def)
  have e1: "binary64 (110 - 100) = 10"
    by (subst binary64_small [where k = 49]) (simp_all add: roundHalfEven_def Let_def)
  have e2: "binary64 (10 * 10) = 100"
    by (subst binary64_small [where k = 46]) (simp_all add: roundHalfEven_def Let_def)
  have e3: "binary64 (100 - 4 / 10) = 3504363460047667 / 35184372088832"
    by (subst binary64_small [where k = 46]) (simp_all add: roundHalfEven_def Let_def)
  have e4: "binary64 (3504363460047667 / 35184372088832 - 44 / 100)
              = 3488882336328581 / 35184372088832"
    by (subst binary64_small [where k = 46]) (simp_all add: roundHalfEven_def Let_def)
  have e5: "binary64 (3488882336328581 / 35184372088832 - 0)
              = 3488882336328581 / 35184372088832"
    by (subst binary64_small [where k = 46]) (simp_all add: roundHalfEven_def Let_def)
  show ?thesis
    unfolding realizedPnlOf_def row by (simp only: refl if_True e1 e2 e3 e4 e5)
qed

lemma demo_close:
  "closePosition demoStore 1 110 (44 / 100) TP_TRIGGERED 2000
     = (demoClosedStore, Inr (Some demoLongClosed))"
  unfolding closePosition_open [OF demo_get demo_status] closedStore_def demo_realized
  by code_simp

lemma demo_closed_get: "getPositionById demoClosedStore 1 = Some demoLongClosed"
  by code_simp

lemma demo_closed_status: "status demoLongClosed = CLOSED"
  by (simp add: demoLongClosed_def)

theorem closePosition_at_most_once_witness:
  "getPositionById demoClosedStore 1 = Some demoLongClosed \<and> status demoLongClosed = CLOSED
   \<and> closePosition demoClosedStore 1 111 (1 / 2) MANUAL_CLOSE 3000 = (demoClosedStore, Inr None)
   \<and> closeMany demoStore 1 [(110, 44 / 100, TP_TRIGGERED, 2000), (111, 1 / 2, MANUAL_CLOSE, 3000)]
         = (demoClosedStore, [Inr (Some demoLongClosed), Inr None])
   \<and> length (filter succeeded [Inr (Some demoLongClosed), Inr None]) \<le> 1
   \<and> length (closeFills demoClosedStore 1) = 1
   \<and> length (terminalEvents demoClosedStore 1) \<le> 1"
proof -
  have closed: "getPositionById demoClosedStore 1 = Some demoLongClosed \<and> status demoLongClosed = CLOSED"
    using demo_closed_get demo_closed_status by blast
  have second: "closePosition demoClosedStore 1 111 (1 / 2) MANUAL_CLOSE 3000 = (demoClosedStore, Inr None)"
    using closePosition_at_most_once
      [of demoClosedStore 1 demoLongClosed 111 "1 / 2" MANUAL_CLOSE 3000 "[]" demoClosedStore "[]"]
      closed by blast
  have run: "closeMany demoStore 1 [(110, 44 / 100, TP_TRIGGERED, 2000), (111, 1 / 2, MANUAL_CLOSE, 3000)]
         = (demoClosedStore, [Inr (Some demoLongClosed), Inr None])"
    by (simp only: closeMany.simps demo_close second prod.case)
  have before: "closeFills demoStore 1 = []" "terminalEvents demoStore 1 = []"
    by code_simp+
  from closePosition_at_most_once
      [of demoStore 1 demoLong 110 "44 / 100" TP_TRIGGERED 2000
          "[(110, 44 / 100, TP_TRIGGERED, 2000), (111, 1 / 2, MANUAL_CLOSE, 3000)]"
          demoClosedStore "[Inr (Some demoLongClosed), Inr None]"] run before
  have "length (filter succeeded [Inr (Some demoLongClosed), Inr None]) \<le> 1
      \<and> length (closeFills demoClosedStore 1) = 1
      \<and> length (terminalEvents demoClosedStore 1) \<le> 1"
    by simp
  with closed second run show ?thesis by blast
qed

text \<open>
  C2, as the code has it. A position that \<open>closePosition\<close> closes is stored CLOSED with
  \<open>feesClose\<close> the fee of the call and its side, quantity, entry price, opening fee and
  funding as before. \<open>realizedPnl\<close> is computed in binary64, so
  \<open>realizedPnl + feesOpen + feesClose + fundingPnl\<close> equals the gross PnL \<open>G\<close>,
  \<open>(closePrice - entryPrice) * qty\<close> for a LONG and \<open>(entryPrice - closePrice) * qty\<close> for a
  SHORT, up to rounding: the difference is at most
  \<open>(|G| + |feesOpen| + |feesClose| + |fundingPnl|) / 2^48\<close>.
\<close>

theorem closePosition_pnl_rounded:
  assumes "closePosition s i price fee ev now = (s', Inr (Some p'))"
  shows "getPositionById s' i = Some p' \<and> status p' = CLOSED
       \<and> closePrice p' = Some price \<and> feesClose p' = fee
       \<and> (\<exists>p. getPositionById s i = Some p \<and> status p = OPEN
              \<and> side p' = side p \<and> qty p' = qty p \<and> entryPrice p' = entryPrice p
              \<and> feesOpen p' = feesOpen p \<and> fundingPnl p' = fundingPnl p)
       \<and> (side p' = LONG \<longrightarrow>
            \<bar>realizedPnl p' + feesOpen p' + feesClose p' + fundingPnl p'
               - (price - entryPrice p') * qty p'\<bar>
              \<le> (\<bar>(price - entryPrice p') * qty p'\<bar> + \<bar>feesOpen p'\<bar> + \<bar>feesClose p'\<bar>
                   + \<bar>fundingPnl p'\<bar>) / 2 ^ 48)
       \<and> (side p' = SHORT \<longrightarrow>
            \<bar>realizedPnl p' + feesOpen p' + feesClose p' + fundingPnl p'
               - (entryPrice p' - price) * qty p'\<bar>
              \<le> (\<bar>(entryPrice p' - price) * qty p'\<bar> + \<bar>feesOpen p'\<bar> + \<bar>feesClose p'\<bar>
                   + \<bar>fundingPnl p'\<bar>) / 2 ^ 48)"
proof -
  from assms obtain p where p: "getPositionById s i = Some p"
    by (cases "getPositionById s i") (auto simp: closePosition_def)
  from assms p have st: "status p = OPEN"
    by (cases "status p") (auto simp: closePosition_def)
  from closePosition_open [OF p st, of price fee ev now] assms
  have s': "s' = closedStore s i p price fee ev now"
    and p': "p' = closeRow price now (realizedPnlOf p price fee) fee p" by auto
  have stored: "getPositionById s' i = Some p'"
    using p by (simp add: s' p' closedStore_def getPositionById_def find_map_row Let_def)
  have row: "status p' = CLOSED" "closePrice p' = Some price" "feesClose p' = fee"
    "side p' = side p" "qty p' = qty p" "entryPrice p' = entryPrice p"
    "feesOpen p' = feesOpen p" "fundingPnl p' = fundingPnl p"
    "realizedPnl p' = realizedPnlOf p price fee"
    by (simp_all add: p' closeRow_def)
  have long: "side p = LONG \<Longrightarrow>
      \<bar>realizedPnlOf p price fee + feesOpen p + fee + fundingPnl p
         - (price - entryPrice p) * qty p\<bar>
        \<le> (\<bar>(price - entryPrice p) * qty p\<bar> + \<bar>feesOpen p\<bar> + \<bar>fee\<bar> + \<bar>fundingPnl p\<bar>) / 2 ^ 48"
    using pnl_rounding_bound [of "price - entryPrice p" "qty p" "feesOpen p" fee "fundingPnl p"]
    by (simp add: realizedPnlOf_def)
  have short: "side p = SHORT \<Longrightarrow>
      \<bar>realizedPnlOf p price fee + feesOpen p + fee + fundingPnl p
         - (entryPrice p - price) * qty p\<bar>
        \<le> (\<bar>(entryPrice p - price) * qty p\<bar> + \<bar>feesOpen p\<bar> + \<bar>fee\<bar> + \<bar>fundingPnl p\<bar>) / 2 ^ 48"
    using pnl_rounding_bound [of "entryPrice p - price" "qty p" "feesOpen p" fee "fundingPnl p"]
    by (simp add: realizedPnlOf_def)
  show ?thesis
    unfolding row using stored p st long short by blast
qed

lemma demoTiny_get: "getPositionById demoTinyStore 1 = Some demoTiny"
  by code_simp

lemma demoTiny_status: "status demoTiny = OPEN"
  by code_simp

lemma demoTiny_realized:
  "realizedPnlOf demoTiny 2 demoTinyFee = - 4512606826625237 / 4503599627370496"
proof -
  have row: "side demoTiny = LONG" "entryPrice demoTiny = 3" "qty demoTiny = 1"
    "feesOpen demoTiny = 2767011611056433 / 2305843009213693952" "fundingPnl demoTiny = 0"
    by (simp_all add: demoTiny_def demoLong_def)
  have e1: "binary64 (2 - 3) = - 1"
    by (subst binary64_small [where k = 52]) (simp_all add: roundHalfEven_def Let_def)
  have e2: "binary64 (- 1 * 1) = - 1"
    by (subst binary64_small [where k = 52]) (simp_all add: roundHalfEven_def Let_def)
  have e3: "binary64 (- 1 - 2767011611056433 / 2305843009213693952)
              = - 4509003946923341 / 4503599627370496"
    by (subst binary64_small [where k = 52]) (simp_all add: roundHalfEven_def Let_def)
  have e4: "binary64 (- 4509003946923341 / 4503599627370496
                       - 7378697629483821 / 9223372036854775808)
              = - 4512606826625237 / 4503599627370496"
    by (subst binary64_small [where k = 52]) (simp_all add: roundHalfEven_def Let_def)
  have e5: "binary64 (- 4512606826625237 / 4503599627370496 - 0)
              = - 4512606826625237 / 4503599627370496"
    by (subst binary64_small [where k = 52]) (simp_all add: roundHalfEven_def Let_def)
  show ?thesis
    unfolding realizedPnlOf_def demoTinyFee_def row by (simp only: refl if_True e1 e2 e3 e4 e5)
qed

lemma demoTiny_close:
  "closePosition demoTinyStore 1 2 demoTinyFee MANUAL_CLOSE 2000
     = (closedStore demoTinyStore 1 demoTiny 2 demoTinyFee MANUAL_CLOSE 2000,
        Inr (Some demoTinyClosed))"
proof -
  have "closeRow 2 2000 (- 4512606826625237 / 4503599627370496) demoTinyFee demoTiny
          = demoTinyClosed"
    by (simp add: closeRow_def demoTinyClosed_def)
  then show ?thesis
    unfolding closePosition_open [OF demoTiny_get demoTiny_status] demoTiny_realized
    by (simp only:)
qed

text \<open>
  C2 as stated fails on ordinary inputs: the stored fields of the example sum to
  \<open>-1 - 15 / 2^63\<close> as exact numbers, and to the double \<open>-0.9999999999999999\<close> when added in
  binary64, while the gross PnL is \<open>-1\<close>.
\<close>

theorem closePosition_pnl_counterexample:
  "snd (closePosition demoTinyStore 1 2 demoTinyFee MANUAL_CLOSE 2000) = Inr (Some demoTinyClosed)
   \<and> getPositionById (fst (closePosition demoTinyStore 1 2 demoTinyFee MANUAL_CLOSE 2000)) 1
        = Some demoTinyClosed
   \<and> side demoTinyClosed = LONG \<and> feesClose demoTinyClosed = demoTinyFee
   \<and> (2 - entryPrice demoTinyClosed) * qty demoTinyClosed = - 1
   \<and> realizedPnl demoTinyClosed + feesOpen demoTinyClosed + feesClose demoTinyClosed
        + fundingPnl demoTinyClosed = - 1 - 15 / 2 ^ 63
   \<and> binary64 (binary64 (binary64 (realizedPnl demoTinyClosed + feesOpen demoTinyClosed)
        + feesClose demoTinyClosed) + fundingPnl demoTinyClosed)
        = - 9007199254740991 / 9007199254740992"
proof -
  have row: "side demoTinyClosed = LONG" "feesClose demoTinyClosed = demoTinyFee"
    "entryPrice demoTinyClosed = 3" "qty demoTinyClosed = 1" "fundingPnl demoTinyClosed = 0"
    "realizedPnl demoTinyClosed = - 4512606826625237 / 4503599627370496"
    "feesOpen demoTinyClosed = 2767011611056433 / 2305843009213693952"
    by (simp_all add: demoTinyClosed_def demoTiny_def demoLong_def)
  have stored: "getPositionById (closedStore demoTinyStore 1 demoTiny 2 demoTinyFee MANUAL_CLOSE 2000) 1
        = Some demoTinyClosed"
    using getPositionById_closedStore [OF demoTiny_get, of 2 demoTinyFee MANUAL_CLOSE 2000]
      closePosition_open [OF demoTiny_get demoTiny_status, of 2 demoTinyFee MANUAL_CLOSE 2000]
      demoTiny_close
    by (simp add: closedStore_def getPositionById_def find_map_row Let_def demoTiny_realized
        closeRow_def demoTinyClosed_def demoTinyStore_def demoTiny_def demoLong_def)
  have exact: "realizedPnl demoTinyClosed + feesOpen demoTinyClosed + feesClose demoTinyClosed
        + fundingPnl demoTinyClosed = - 1 - 15 / 2 ^ 63"
    by (simp add: row demoTinyFee_def)
  have s1: "binary64 (- 4512606826625237 / 4503599627370496
                       + 2767011611056433 / 2305843009213693952)
              = - 563400313384049 / 562949953421312"
    by (subst binary64_small [where k = 52]) (simp_all add: roundHalfEven_def Let_def)
  have s2: "binary64 (- 563400313384049 / 562949953421312
                       + 7378697629483821 / 9223372036854775808)
              = - 9007199254740991 / 9007199254740992"
    by (subst binary64_small [where k = 53]) (simp_all add: roundHalfEven_def Let_def)
  have s3: "binary64 (- 9007199254740991 / 9007199254740992 + 0)
              = - 9007199254740991 / 9007199254740992"
    by (subst binary64_small [where k = 53]) (simp_all add: roundHalfEven_def Let_def)
  have rounded: "binary64 (binary64 (binary64 (realizedPnl demoTinyClosed + feesOpen demoTinyClosed)
        + feesClose demoTinyClosed) + fundingPnl demoTinyClosed)
        = - 9007199254740991 / 9007199254740992"
    unfolding row demoTinyFee_def by (simp only: s1 s2 s3)
  have gross: "(2 - entryPrice demoTinyClosed) * qty demoTinyClosed = - 1"
    by (simp add: row)
  show ?thesis
    unfolding demoTiny_close fst_conv snd_conv
    using stored row(1,2) gross exact rounded by (intro conjI) (rule refl, assumption+)
qed

theorem closePosition_pnl_rounded_witness:
  "closePosition demoStore 1 110 (44 / 100) TP_TRIGGERED 2000
     = (demoClosedStore, Inr (Some demoLongClosed))
   \<and> side demoLongClosed = LONG \<and> feesClose demoLongClosed = 44 / 100
   \<and> \<bar>realizedPnl demoLongClosed + feesOpen demoLongClosed + feesClose demoLongClosed
        + fundingPnl demoLongClosed - (110 - entryPrice demoLongClosed) * qty demoLongClosed\<bar>
       \<le> (\<bar>(110 - entryPrice demoLongClosed) * qty demoLongClosed\<bar> + \<bar>feesOpen demoLongClosed\<bar>
            + \<bar>feesClose demoLongClosed\<bar> + \<bar>fundingPnl demoLongClosed\<bar>) / 2 ^ 48"
proof -
  have long: "side demoLongClosed = LONG"
    by (simp add: demoLongClosed_def demoLong_def)
  from closePosition_pnl_rounded [OF demo_close] long demo_close
  show ?thesis by blast
qed

section \<open>Updating stop-loss and take-profit\<close>

lemma id_pos_applyUpdate [simp]: "id_pos (applyUpdate data p) = id_pos p"
  by (simp add: applyUpdate_def split: option.splits)

lemma sameExceptSlTp_applyUpdate: "sameExceptSlTp p (applyUpdate data p)"
  by (simp add: sameExceptSlTp_def applyUpdate_def split: option.splits)

lemma sameExceptSlTp_refl: "sameExceptSlTp p p"
  by (simp add: sameExceptSlTp_def)

lemma sameExceptSlTp_map:
  "list_all2 sameExceptSlTp xs (map (\<lambda>p. if id_pos p = i then applyUpdate data p else p) xs)"
  by (induction xs) (simp_all add: sameExceptSlTp_applyUpdate sameExceptSlTp_refl)

lemma updatePosition_empty:
  assumes "sl_upd data = None" and "tp_upd data = None"
  shows "updatePosition s i data now = (s, Inr (getPositionById s i))"
  using assms by (simp add: updatePosition_def)

lemma updatePosition_positions:
  assumes "updatePosition s i data now = (s', r)"
  shows "positions s' = positions s
       \<or> positions s' = map (\<lambda>p. if id_pos p = i then applyUpdate data p else p) (positions s)"
  using assms
  by (auto simp: updatePosition_def createEvent_def Let_def split: if_splits)

lemma updatePosition_fills:
  assumes "updatePosition s i data now = (s', r)"
  shows "fills s' = fills s"
  using assms
  by (auto simp: updatePosition_def createEvent_def Let_def split: if_splits)

text \<open>
  C10. Whatever \<open>updatePosition\<close> returns or raises, every row of the positions table
  keeps all its columns other than \<open>sl\<close> and \<open>tp\<close>, and the fills and the settings are
  untouched. When the request carries neither \<open>sl\<close> nor \<open>tp\<close> the store is unchanged (no
  write, no event) and the call returns the row as stored.
\<close>

theorem updatePosition_frame:
  assumes "updatePosition s i data now = (s', r)"
  shows "list_all2 sameExceptSlTp (positions s) (positions s')
       \<and> fills s' = fills s \<and> settings s' = settings s
       \<and> (sl_upd data = None \<and> tp_upd data = None \<longrightarrow>
             s' = s \<and> r = Inr (getPositionById s i))"
proof -
  have "list_all2 sameExceptSlTp (positions s) (positions s')"
    using updatePosition_positions [OF assms]
    by (auto simp: sameExceptSlTp_map list_all2_same sameExceptSlTp_refl)
  moreover have "fills s' = fills s"
    using updatePosition_fills [OF assms] .
  moreover have "settings s' = settings s"
    using assms by (auto simp: updatePosition_def createEvent_def Let_def split: if_splits)
  moreover have "sl_upd data = None \<and> tp_upd data = None \<longrightarrow>
             s' = s \<and> r = Inr (getPositionById s i)"
    using assms by (auto simp: updatePosition_empty)
  ultimately show ?thesis by blast
qed

lemma demo_noUpdate: "updatePosition demoStore 1 noUpdate 4000 = (demoStore, Inr (Some demoLong))"
  by code_simp

lemma demo_slUpdate:
  "updatePosition demoStore 1 slUpdate 4000 = (demoSlUpdatedStore, Inr (Some (demoLong\<lparr>sl := Some 90\<rparr>)))"
  by code_simp

theorem updatePosition_frame_witness:
  "updatePosition demoStore 1 noUpdate 4000 = (demoStore, Inr (Some demoLong))
   \<and> sl_upd noUpdate = None \<and> tp_upd noUpdate = None
   \<and> Inr (Some demoLong) = Inr (getPositionById demoStore 1)
   \<and> updatePosition demoStore 1 slUpdate 4000
        = (demoSlUpdatedStore, Inr (Some (demoLong\<lparr>sl := Some 90\<rparr>)))
   \<and> list_all2 sameExceptSlTp (positions demoStore) (positions demoSlUpdatedStore)
   \<and> fills demoSlUpdatedStore = fills demoStore"
proof -
  have none: "sl_upd noUpdate = None \<and> tp_upd noUpdate = None"
    by (simp add: noUpdate_def)
  from updatePosition_frame [OF demo_noUpdate] none
  have a: "Inr (Some demoLong) = Inr (getPositionById demoStore 1)"
    by blast
  from updatePosition_frame [OF demo_slUpdate]
  have b: "list_all2 sameExceptSlTp (positions demoStore) (positions demoSlUpdatedStore)
     \<and> fills demoSlUpdatedStore = fills demoStore" by blast
  from a b none demo_noUpdate demo_slUpdate show ?thesis by simp
qed

lemma getPositionById_createEvent_store:
  "getPositionById (s\<lparr>events := es, seq_events := k\<rparr>) i = getPositionById s i"
  by (simp add: getPositionById_def)

lemma updatePosition_present:
  assumes "getPositionById s i = Some p" and "sl_upd data \<noteq> None \<or> tp_upd data \<noteq> None"
  shows "updatePosition s i data now =
           (s\<lparr>positions := map (\<lambda>q. if id_pos q = i then applyUpdate data q else q) (positions s),
              events := events s @
                [\<lparr>id_ev = next_rowid (seq_events s) (map id_ev (events s)), positionId_ev = i,
                  event_ev = (if sl_upd data \<noteq> None then SL_UPDATED else TP_UPDATED),
                  payload_ev = UpdatedPayload data, ts_ev = now\<rparr>],
              seq_events := next_rowid (seq_events s) (map id_ev (events s))\<rparr>,
            Inr (Some (applyUpdate data p)))"
  using assms
  by (auto simp: updatePosition_def createEvent_def getPositionById_def find_map_row Let_def)

text \<open>
  C6, as the code has it. \<open>updatePosition\<close> does not look at the status: for every stored
  position, OPEN or CLOSED, a call that provides \<open>sl\<close> or \<open>tp\<close> sets exactly the provided
  columns, keeps every other column, and appends exactly one event, SL_UPDATED when
  \<open>sl\<close> is provided and TP_UPDATED otherwise.
\<close>

theorem updatePosition_any_status:
  assumes "getPositionById s i = Some p" and "sl_upd data \<noteq> None \<or> tp_upd data \<noteq> None"
  shows "\<exists>s' p' e. updatePosition s i data now = (s', Inr (Some p'))
           \<and> getPositionById s' i = Some p'
           \<and> sl p' = (case sl_upd data of None \<Rightarrow> sl p | Some v \<Rightarrow> v)
           \<and> tp p' = (case tp_upd data of None \<Rightarrow> tp p | Some v \<Rightarrow> v)
           \<and> sameExceptSlTp p p'
           \<and> events s' = events s @ [e] \<and> positionId_ev e = i
           \<and> event_ev e = (if sl_upd data \<noteq> None then SL_UPDATED else TP_UPDATED)"
proof -
  let ?e = "\<lparr>id_ev = next_rowid (seq_events s) (map id_ev (events s)), positionId_ev = i,
             event_ev = (if sl_upd data \<noteq> None then SL_UPDATED else TP_UPDATED),
             payload_ev = UpdatedPayload data, ts_ev = now\<rparr>"
  let ?s' = "s\<lparr>positions := map (\<lambda>q. if id_pos q = i then applyUpdate data q else q) (positions s),
               events := events s @ [?e],
               seq_events := next_rowid (seq_events s) (map id_ev (events s))\<rparr>"
  have run: "updatePosition s i data now = (?s', Inr (Some (applyUpdate data p)))"
    by (rule updatePosition_present [OF assms])
  have fields: "sl (applyUpdate data p) = (case sl_upd data of None \<Rightarrow> sl p | Some v \<Rightarrow> v)"
    "tp (applyUpdate data p) = (case tp_upd data of None \<Rightarrow> tp p | Some v \<Rightarrow> v)"
    by (simp_all add: applyUpdate_def split: option.splits)
  have stored: "getPositionById ?s' i = Some (applyUpdate data p)"
    using assms(1) by (simp add: getPositionById_def find_map_row)
  have ev: "events ?s' = events s @ [?e]" "positionId_ev ?e = i"
    "event_ev ?e = (if sl_upd data \<noteq> None then SL_UPDATED else TP_UPDATED)"
    by simp_all
  from run stored fields sameExceptSlTp_applyUpdate [of p data] ev
  show ?thesis by blast
qed

text \<open>
  C6 as stated fails: on the CLOSED position of the example an update of \<open>sl\<close> succeeds,
  changes the stored \<open>sl\<close> from 95 to 90 and appends an SL_UPDATED event.
\<close>

theorem updatePosition_closed_counterexample:
  "getPositionById demoClosedStore 1 = Some demoLongClosed \<and> status demoLongClosed = CLOSED
   \<and> sl demoLongClosed = Some 95
   \<and> updatePosition demoClosedStore 1 slUpdate 4000
        = (demoClosedSlUpdatedStore, Inr (Some (demoLongClosed\<lparr>sl := Some 90\<rparr>)))
   \<and> getPositionById demoClosedSlUpdatedStore 1 = Some (demoLongClosed\<lparr>sl := Some 90\<rparr>)
   \<and> events demoClosedSlUpdatedStore = events demoClosedStore @
        [\<lparr>id_ev = 3, positionId_ev = 1, event_ev = SL_UPDATED,
          payload_ev = UpdatedPayload slUpdate, ts_ev = 4000\<rparr>]"
  by code_simp

theorem updatePosition_any_status_witness:
  "getPositionById demoClosedStore 1 = Some demoLongClosed
   \<and> sl_upd slUpdate = Some (Some 90)
   \<and> (\<exists>s' p' e. updatePosition demoClosedStore 1 slUpdate 4000 = (s', Inr (Some p'))
           \<and> getPositionById s' 1 = Some p'
           \<and> sl p' = Some 90 \<and> tp p' = tp demoLongClosed \<and> status p' = CLOSED
           \<and> events s' = events demoClosedStore @ [e] \<and> positionId_ev e = 1
           \<and> event_ev e = SL_UPDATED)"
proof -
  have upd: "sl_upd slUpdate = Some (Some 90)" "tp_upd slUpdate = None"
    by (simp_all add: slUpdate_def)
  then have provided: "sl_upd slUpdate \<noteq> None \<or> tp_upd slUpdate \<noteq> None" by simp
  from updatePosition_any_status [OF demo_closed_get provided, of 4000]
  obtain s' p' e where r: "updatePosition demoClosedStore 1 slUpdate 4000 = (s', Inr (Some p'))"
    "getPositionById s' 1 = Some p'" "sl p' = Some 90" "tp p' = tp demoLongClosed"
    "sameExceptSlTp demoLongClosed p'" "events s' = events demoClosedStore @ [e]"
    "positionId_ev e = 1" "event_ev e = SL_UPDATED"
    by (auto simp: upd)
  from r(5) have "status p' = CLOSED"
    by (simp add: sameExceptSlTp_def demo_closed_status)
  with r upd demo_closed_get show ?thesis by blast
qed

section \<open>Creating a position\<close>

lemma fold_max_ge: "a \<le> fold max xs (a::nat)"
  by (induction xs arbitrary: a) (auto intro: le_trans [OF max.cobounded2])

lemma fold_max_mem: "x \<in> set xs \<Longrightarrow> x \<le> fold max xs (a::nat)"
proof (induction xs arbitrary: a)
  case Nil
  then show ?case by simp
next
  case (Cons y ys)
  show ?case
  proof (cases "x = y")
    case True
    have "y \<le> max y a" by simp
    also have "\<dots> \<le> fold max ys (max y a)" by (rule fold_max_ge)
    finally show ?thesis using True by simp
  next
    case False
    with Cons show ?thesis by simp
  qed
qed

lemma next_rowid_fresh: "x \<in> set ids \<Longrightarrow> x < next_rowid k ids"
  by (simp add: next_rowid_def fold_max_mem less_Suc_eq_le)

lemma find_append_fresh:
  assumes "\<forall>p\<in>set xs. id_pos p \<noteq> id_pos row"
  shows "find (\<lambda>p. id_pos p = id_pos row) (xs @ [row]) = Some row"
  using assms by (induction xs) auto

lemma positions_fresh:
  "\<forall>q\<in>set (positions s). id_pos q \<noteq> next_rowid (seq_positions s) (map id_pos (positions s))"
proof
  fix q assume "q \<in> set (positions s)"
  then have "id_pos q \<in> set (map id_pos (positions s))" by simp
  from next_rowid_fresh [OF this, of "seq_positions s"]
  show "id_pos q \<noteq> next_rowid (seq_positions s) (map id_pos (positions s))" by simp
qed

text \<open>
  C5, as the code has it. For a side that the schema accepts and a non-zero entry price,
  a \<open>createPosition\<close> whose three writes succeed appends the position row (fresh id,
  status OPEN, \<open>feesOpen\<close> the opening fee, \<open>qty\<close> derived from \<open>sizeMode\<close>), its OPEN fill
  and its POSITION_CREATED event, and returns the row. The writes are three separate
  statements: when the first fails nothing is persisted, when the fill insert fails the
  position row stays, when the event insert fails the position row and the fill stay.
\<close>

theorem createPosition_writes:
  assumes "checkSide (side_req data) = Some sd" and "price \<noteq> 0"
  shows "\<exists>p f e.
           createPosition s NoFault data price fee now =
             (s\<lparr>positions := positions s @ [p], seq_positions := id_pos p,
                fills := fills s @ [f], seq_fills := id_fill f,
                events := events s @ [e], seq_events := id_ev e\<rparr>, Inr (Some p))
         \<and> createPosition s FailInsertPosition data price fee now = (s, Inl StorageFailed)
         \<and> createPosition s FailInsertFill data price fee now =
             (s\<lparr>positions := positions s @ [p], seq_positions := id_pos p\<rparr>, Inl StorageFailed)
         \<and> createPosition s FailInsertEvent data price fee now =
             (s\<lparr>positions := positions s @ [p], seq_positions := id_pos p,
                fills := fills s @ [f], seq_fills := id_fill f\<rparr>, Inl StorageFailed)
         \<and> (\<forall>q\<in>set (positions s). id_pos q \<noteq> id_pos p)
         \<and> status p = OPEN \<and> feesOpen p = fee \<and> entryPrice p = price \<and> side p = sd
         \<and> symbol p = symbol_req data
         \<and> qty p = (if sizeMode data = USDT then sizeValue data / price else sizeValue data)
         \<and> positionId_fill f = id_pos p \<and> type_fill f = FILL_OPEN \<and> price_fill f = price
         \<and> qty_fill f = qty p \<and> fee_fill f = fee
         \<and> positionId_ev e = id_pos p \<and> event_ev e = POSITION_CREATED"
proof -
  let ?q = "if sizeMode data = USDT then sizeValue data / price else sizeValue data"
  let ?pid = "next_rowid (seq_positions s) (map id_pos (positions s))"
  let ?p = "\<lparr>id_pos = ?pid, symbol = symbol_req data, side = sd, qty = ?q,
             entryPrice = price, entryTime = now,
             sl = orNull (sl_req data), tp = orNull (tp_req data),
             leverage = leverage_req data, status = OPEN,
             closePrice = None, closeTime = None, realizedPnl = 0,
             feesOpen = fee, feesClose = 0, fundingPnl = 0,
             notes_pos = orNullText (notes_req data)\<rparr>"
  let ?f = "\<lparr>id_fill = next_rowid (seq_fills s) (map id_fill (fills s)), positionId_fill = ?pid,
             type_fill = FILL_OPEN, price_fill = price, qty_fill = ?q, fee_fill = fee,
             ts_fill = now\<rparr>"
  let ?e = "\<lparr>id_ev = next_rowid (seq_events s) (map id_ev (events s)), positionId_ev = ?pid,
             event_ev = POSITION_CREATED,
             payload_ev = CreatedPayload (entryType data) (notes_req data), ts_ev = now\<rparr>"
  have fresh: "\<forall>q\<in>set (positions s). id_pos q \<noteq> id_pos ?p"
    using positions_fresh [of s] by simp
  have found: "find (\<lambda>p. id_pos p = ?pid) (positions s @ [?p]) = Some ?p"
    using find_append_fresh [OF fresh] by simp
  have ok: "createPosition s NoFault data price fee now =
             (s\<lparr>positions := positions s @ [?p], seq_positions := id_pos ?p,
                fills := fills s @ [?f], seq_fills := id_fill ?f,
                events := events s @ [?e], seq_events := id_ev ?e\<rparr>, Inr (Some ?p))"
    using assms(1) found
    by (simp add: createPosition_def createFill_def createEvent_def getPositionById_def Let_def)
  have f1: "createPosition s FailInsertPosition data price fee now = (s, Inl StorageFailed)"
    using assms(1) by (simp add: createPosition_def)
  have f2: "createPosition s FailInsertFill data price fee now =
             (s\<lparr>positions := positions s @ [?p], seq_positions := id_pos ?p\<rparr>, Inl StorageFailed)"
    using assms(1) by (simp add: createPosition_def Let_def)
  have f3: "createPosition s FailInsertEvent data price fee now =
             (s\<lparr>positions := positions s @ [?p], seq_positions := id_pos ?p,
                fills := fills s @ [?f], seq_fills := id_fill ?f\<rparr>, Inl StorageFailed)"
    using assms(1) found
    by (simp add: createPosition_def createFill_def getPositionById_def Let_def)
  have rows: "status ?p = OPEN \<and> feesOpen ?p = fee \<and> entryPrice ?p = price \<and> side ?p = sd
         \<and> symbol ?p = symbol_req data \<and> qty ?p = ?q
         \<and> positionId_fill ?f = id_pos ?p \<and> type_fill ?f = FILL_OPEN \<and> price_fill ?f = price
         \<and> qty_fill ?f = qty ?p \<and> fee_fill ?f = fee
         \<and> positionId_ev ?e = id_pos ?p \<and> event_ev ?e = POSITION_CREATED"
    by simp
  from ok f1 f2 f3 fresh rows show ?thesis by blast
qed

lemma demo_create:
  "createPosition emptyStore NoFault demoPositionData 100 (4 / 10) 1000 = (demoStore, Inr (Some demoLong))"
  by code_simp

text \<open>
  C5 as stated fails: when the storage layer raises at the fill insert, the position row
  that the first statement wrote is in the store and the fill and the event are not.
\<close>

theorem createPosition_not_atomic_counterexample:
  "createPosition emptyStore FailInsertFill demoPositionData 100 (4 / 10) 1000
     = (demoOrphanStore, Inl StorageFailed)
   \<and> positions demoOrphanStore = [demoLong] \<and> positions emptyStore = []
   \<and> fills demoOrphanStore = [] \<and> events demoOrphanStore = []"
  by code_simp


theorem createPosition_writes_witness:
  "checkSide (side_req demoPositionData) = Some LONG
   \<and> createPosition emptyStore NoFault demoPositionData 100 (4 / 10) 1000
        = (demoStore, Inr (Some demoLong))
   \<and> status demoLong = OPEN \<and> feesOpen demoLong = 4 / 10 \<and> qty demoLong = 1000 / 100"
proof -
  have sd: "checkSide (side_req demoPositionData) = Some LONG" by code_simp
  have nz: "(100::real) \<noteq> 0" by simp
  have mode: "sizeMode demoPositionData = USDT" "sizeValue demoPositionData = 1000"
    by (simp_all add: demoPositionData_def)
  from createPosition_writes [OF sd nz, of emptyStore "4 / 10" 1000]
  obtain s' p where run: "createPosition emptyStore NoFault demoPositionData 100 (4 / 10) 1000
        = (s', Inr (Some p))"
    and props: "status p = OPEN" "feesOpen p = 4 / 10"
      "qty p = (if sizeMode demoPositionData = USDT then sizeValue demoPositionData / 100
                else sizeValue demoPositionData)"
    by blast
  from run demo_create have "p = demoLong" by simp
  with props mode sd demo_create show ?thesis by simp
qed

section \<open>The POST handler\<close>

















section \<open>Statistics and reconnection\<close>

lemma foldl_plus: "foldl (\<lambda>sum r. sum + r) a rs = a + sum_list (rs :: real list)"
  by (induction rs arbitrary: a) simp_all

lemma sum_rMultiples:
  "sum_list (rMultiples ps) = sum_list (map rOf (filter hasRisk ps))"
  by (induction ps)
    (auto simp: rMultiples_def hasRisk_def rOf_def orZero_def Let_def split: option.splits)

lemma length_rMultiples: "length (rMultiples ps) = length (filter (\<lambda>p. sl p \<noteq> None) ps)"
  by (simp add: rMultiples_def)

lemma rMultiples_Nil: "rMultiples ps = [] \<longleftrightarrow> filter (\<lambda>p. sl p \<noteq> None) ps = []"
  by (simp add: rMultiples_def)

text \<open>
  C7, as the code has it. For closed positions of non-zero quantity, \<open>avgRMultiple\<close> is 0
  when no position has a stop-loss, and otherwise the sum of
  \<open>(realizedPnl / qty) / |entryPrice - sl|\<close> over the positions with a stop-loss and a
  non-zero risk, divided by the number of all positions with a stop-loss: a position
  with zero risk adds nothing to the sum and still counts in the divisor.
\<close>

theorem avgRMultiple_mean:
  assumes "\<forall>p\<in>set closedPositions. qty p \<noteq> 0"
  shows "avgRMultiple closedPositions =
           (if filter (\<lambda>p. sl p \<noteq> None) closedPositions = [] then 0
            else sum_list (map rOf (filter hasRisk closedPositions))
                 / real (length (filter (\<lambda>p. sl p \<noteq> None) closedPositions)))"
  by (simp add: avgRMultiple_def Let_def foldl_plus sum_rMultiples length_rMultiples
      rMultiples_Nil del: filter_False)

text \<open>
  C7 as stated fails: with one position of R-multiple 2 and one whose stop-loss is its
  entry price, the statistics report 1, and the mean over the positions with non-zero
  risk is 2.
\<close>

theorem avgRMultiple_counterexample:
  "getPositions demoStatsStore (Some CLOSED) = [demoWinner, demoNoRisk]
   \<and> sl demoNoRisk = Some (entryPrice demoNoRisk)
   \<and> statsAvgRMultiple demoStatsStore = 1
   \<and> specAvgRMultiple (getPositions demoStatsStore (Some CLOSED)) = 2"
  by code_simp

theorem avgRMultiple_mean_witness:
  "qty demoWinner = 10 \<and> qty demoNoRisk = 10
   \<and> filter hasRisk [demoWinner, demoNoRisk] = [demoWinner] \<and> rOf demoWinner = 2
   \<and> length (filter (\<lambda>p. sl p \<noteq> None) [demoWinner, demoNoRisk]) = 2
   \<and> avgRMultiple [demoWinner, demoNoRisk] = 2 / 2"
proof -
  have q: "qty demoWinner = 10" "qty demoNoRisk = 10" by code_simp+
  then have nz: "\<forall>p\<in>set [demoWinner, demoNoRisk]. qty p \<noteq> 0" by simp
  have f: "filter hasRisk [demoWinner, demoNoRisk] = [demoWinner]" "rOf demoWinner = 2"
    "filter (\<lambda>p. sl p \<noteq> None) [demoWinner, demoNoRisk] = [demoWinner, demoNoRisk]"
    by code_simp+
  from avgRMultiple_mean [OF nz] f have "avgRMultiple [demoWinner, demoNoRisk] = 2 / 2"
    by simp
  with q f show ?thesis by simp
qed


lemma scheduleReconnect_next:
  assumes "reconnectAttempts c < 10"
  shows "scheduleReconnect c =
           (c\<lparr>reconnectAttempts := Suc (reconnectAttempts c)\<rparr>,
            [SetReconnectTimeout (min 30000 (2 ^ reconnectAttempts c * 1000))])"
  using assms
  by (simp add: scheduleReconnect_def maxReconnectAttempts_def Let_def min.commute mult.commute)

lemma scheduleReconnect_give_up:
  assumes "10 \<le> reconnectAttempts c"
  shows "scheduleReconnect c = (c, [Emit ''maxReconnectAttemptsReached''])"
  using assms by (simp add: scheduleReconnect_def maxReconnectAttempts_def)

lemma failedConnections_from:
  assumes "a \<le> 10"
  shows "failedConnections k \<lparr>reconnectAttempts = a, isIntentionallyClosed = False\<rparr> =
           (\<lparr>reconnectAttempts = min 10 (a + k), isIntentionallyClosed = False\<rparr>,
            concat (map backoffRound [Suc a..<Suc (min 10 (a + k))])
              @ (if 10 < a + k then giveUpRound else []))"
  using assms
proof (induction k arbitrary: a)
  case 0
  then show ?case by simp
next
  case (Suc k)
  show ?case
  proof (cases "a < 10")
    case True
    let ?c = "\<lparr>reconnectAttempts = a, isIntentionallyClosed = False\<rparr>"
    have close: "onClose ?c =
        (\<lparr>reconnectAttempts = Suc a, isIntentionallyClosed = False\<rparr>, backoffRound (Suc a))"
      using True by (simp add: onClose_def scheduleReconnect_next backoffRound_def)
    have timer: "list_ex isTimeout (backoffRound (Suc a))"
      by (simp add: backoffRound_def isTimeout_def)
    have ih: "failedConnections k \<lparr>reconnectAttempts = Suc a, isIntentionallyClosed = False\<rparr> =
           (\<lparr>reconnectAttempts = min 10 (Suc a + k), isIntentionallyClosed = False\<rparr>,
            concat (map backoffRound [Suc (Suc a)..<Suc (min 10 (Suc a + k))])
              @ (if 10 < Suc a + k then giveUpRound else []))"
      using True by (intro Suc.IH) simp
    have lt: "Suc a < Suc (min 10 (Suc a + k))" using True by simp
    have eq: "a + Suc k = Suc a + k" by simp
    have upt: "[Suc a..<Suc (min 10 (Suc a + k))]
                 = Suc a # [Suc (Suc a)..<Suc (min 10 (Suc a + k))]"
      using lt by (rule upt_conv_Cons)
    have conn: "connect \<lparr>reconnectAttempts = Suc a, isIntentionallyClosed = False\<rparr>
                 = \<lparr>reconnectAttempts = Suc a, isIntentionallyClosed = False\<rparr>"
      by (simp add: connect_def)
    have "failedConnections (Suc k) ?c =
            (\<lparr>reconnectAttempts = min 10 (Suc a + k), isIntentionallyClosed = False\<rparr>,
             backoffRound (Suc a) @
               (concat (map backoffRound [Suc (Suc a)..<Suc (min 10 (Suc a + k))])
                 @ (if 10 < Suc a + k then giveUpRound else [])))"
      by (simp only: failedConnections.simps close prod.case timer if_True conn ih)
    also have "\<dots> =
            (\<lparr>reconnectAttempts = min 10 (Suc a + k), isIntentionallyClosed = False\<rparr>,
             concat (map backoffRound [Suc a..<Suc (min 10 (Suc a + k))])
               @ (if 10 < Suc a + k then giveUpRound else []))"
      by (simp only: upt list.map concat.simps append_assoc)
    finally show ?thesis by (simp only: eq)
  next
    case False
    with Suc.prems have a: "a = 10" by simp
    have "onClose \<lparr>reconnectAttempts = 10, isIntentionallyClosed = False\<rparr> =
        (\<lparr>reconnectAttempts = 10, isIntentionallyClosed = False\<rparr>, giveUpRound)"
      by (simp add: onClose_def scheduleReconnect_give_up giveUpRound_def)
    moreover have "\<not> list_ex isTimeout giveUpRound"
      by (simp add: giveUpRound_def isTimeout_def)
    ultimately show ?thesis
      by (simp add: a)
  qed
qed

text \<open>
  C8. Reconnect attempt \<open>n\<close>, for \<open>n\<close> from 1 to 10, is scheduled after
  \<open>min(30000, 2^(n-1) * 1000)\<close> milliseconds; a successful OPEN sets the attempt counter
  to 0; with the counter at 10 nothing is scheduled and \<open>maxReconnectAttemptsReached\<close> is
  emitted. So \<open>k\<close> consecutive failed connections after an OPEN schedule the attempts 1
  to \<open>min 10 k\<close> with these delays, and once ten attempts have failed the next close
  emits the terminal signal, sets no timer, and ends the run.
\<close>

theorem reconnect_backoff:
  "(1 \<le> n \<and> n \<le> 10 \<and> reconnectAttempts c = n - 1 \<longrightarrow>
      scheduleReconnect c =
        (c\<lparr>reconnectAttempts := n\<rparr>, [SetReconnectTimeout (min 30000 (2 ^ (n - 1) * 1000))]))
   \<and> reconnectAttempts (fst (onOpen c)) = 0
   \<and> (10 \<le> reconnectAttempts c \<longrightarrow>
      scheduleReconnect c = (c, [Emit ''maxReconnectAttemptsReached'']))
   \<and> failedConnections k openedClient =
       (openedClient\<lparr>reconnectAttempts := min 10 k\<rparr>,
        concat (map backoffRound [1..<Suc (min 10 k)]) @ (if 10 < k then giveUpRound else []))"
proof (intro conjI impI)
  assume "1 \<le> n \<and> n \<le> 10 \<and> reconnectAttempts c = n - 1"
  then have "reconnectAttempts c < 10" "Suc (reconnectAttempts c) = n" by auto
  then show "scheduleReconnect c =
        (c\<lparr>reconnectAttempts := n\<rparr>, [SetReconnectTimeout (min 30000 (2 ^ (n - 1) * 1000))])"
    using scheduleReconnect_next [of c] by auto
next
  show "reconnectAttempts (fst (onOpen c)) = 0" by (simp add: onOpen_def)
next
  assume "10 \<le> reconnectAttempts c"
  then show "scheduleReconnect c = (c, [Emit ''maxReconnectAttemptsReached''])"
    by (rule scheduleReconnect_give_up)
next
  show "failedConnections k openedClient =
       (openedClient\<lparr>reconnectAttempts := min 10 k\<rparr>,
        concat (map backoffRound [1..<Suc (min 10 k)]) @ (if 10 < k then giveUpRound else []))"
    using failedConnections_from [of 0 k] by (simp add: openedClient_def)
qed

theorem reconnect_backoff_witness:
  "reconnectAttempts (openedClient\<lparr>reconnectAttempts := 5\<rparr>) = 6 - 1
   \<and> scheduleReconnect (openedClient\<lparr>reconnectAttempts := 5\<rparr>)
        = (openedClient\<lparr>reconnectAttempts := 6\<rparr>, [SetReconnectTimeout 30000])
   \<and> reconnectAttempts (openedClient\<lparr>reconnectAttempts := 10\<rparr>) = 10
   \<and> scheduleReconnect (openedClient\<lparr>reconnectAttempts := 10\<rparr>)
        = (openedClient\<lparr>reconnectAttempts := 10\<rparr>, [Emit ''maxReconnectAttemptsReached''])
   \<and> map snd [failedConnections 3 openedClient]
        = [[StopPing, SetReconnectTimeout 1000, Emit ''disconnected'',
            StopPing, SetReconnectTimeout 2000, Emit ''disconnected'',
            StopPing, SetReconnectTimeout 4000, Emit ''disconnected'']]"
proof -
  have a5: "reconnectAttempts (openedClient\<lparr>reconnectAttempts := 5\<rparr>) = 6 - 1"
    and a10: "reconnectAttempts (openedClient\<lparr>reconnectAttempts := 10\<rparr>) = 10"
    by simp_all
  have r1: "scheduleReconnect (openedClient\<lparr>reconnectAttempts := 5\<rparr>)
        = (openedClient\<lparr>reconnectAttempts := 6\<rparr>, [SetReconnectTimeout 30000])"
    using reconnect_backoff [of 6 "openedClient\<lparr>reconnectAttempts := 5\<rparr>" 0] by simp
  have r2: "scheduleReconnect (openedClient\<lparr>reconnectAttempts := 10\<rparr>)
        = (openedClient\<lparr>reconnectAttempts := 10\<rparr>, [Emit ''maxReconnectAttemptsReached''])"
    using reconnect_backoff [of 1 "openedClient\<lparr>reconnectAttempts := 10\<rparr>" 0] by simp
  have r3: "map snd [failedConnections 3 openedClient]
        = [[StopPing, SetReconnectTimeout 1000, Emit ''disconnected'',
            StopPing, SetReconnectTimeout 2000, Emit ''disconnected'',
            StopPing, SetReconnectTimeout 4000, Emit ''disconnected'']]"
    using reconnect_backoff [of 1 openedClient 3]
    by (simp add: backoffRound_def upt_rec)
  from a5 a10 r1 r2 r3 show ?thesis by blast
qed

section \<open>The trigger engine\<close>

lemma triggersFor_append [simp]:
  "triggersFor i (xs @ ys) = triggersFor i xs @ triggersFor i ys"
  by (induction i xs rule: triggersFor.induct) simp_all

lemma find_id_distinct:
  assumes "distinct (map id_pos xs)" and "q \<in> set xs"
  shows "find (\<lambda>p. id_pos p = id_pos q) xs = Some q"
  using assms
proof (induction xs)
  case Nil
  then show ?case by simp
next
  case (Cons x xs)
  show ?case
  proof (cases "x = q")
    case True
    then show ?thesis by simp
  next
    case False
    with Cons.prems have q: "q \<in> set xs" by simp
    then have "id_pos q \<in> set (map id_pos xs)" by simp
    with Cons.prems have "id_pos x \<noteq> id_pos q" by auto
    with Cons q show ?thesis by simp
  qed
qed

lemma find_id_mem:
  "find (\<lambda>p. id_pos p = i) xs = Some q \<Longrightarrow> q \<in> set xs \<and> id_pos q = i"
  by (induction xs) (auto split: if_splits)

lemma find_id_None:
  "find (\<lambda>p. id_pos p = i) xs = None \<longleftrightarrow> i \<notin> id_pos ` set xs"
  by (induction xs) auto

lemma distinct_ids_sort_filter:
  assumes "distinct (map id_pos xs)"
  shows "distinct (map id_pos (sort_key f (filter P xs)))"
proof -
  from assms have d: "distinct xs" and inj: "inj_on id_pos (set xs)"
    by (simp_all add: distinct_map)
  have "inj_on id_pos (set (sort_key f (filter P xs)))"
    by (rule inj_on_subset [OF inj]) auto
  with d show ?thesis by (simp add: distinct_map)
qed

lemma distinct_ids_open:
  "distinct (map id_pos (positions s)) \<Longrightarrow> distinct (map id_pos (getAllOpenPositions s))"
  by (simp add: getAllOpenPositions_def getPositions_def distinct_ids_sort_filter)

lemma set_open:
  "set (getAllOpenPositions s) = {q \<in> set (positions s). status q = OPEN}"
  by (auto simp: getAllOpenPositions_def getPositions_def)

lemma open_lookup:
  assumes "distinct (map id_pos (positions s))"
    and "getPositionById s j = Some q" and "status q = OPEN"
  shows "find (\<lambda>p. id_pos p = j) (getAllOpenPositions s) = Some q"
proof -
  from assms(2) have q: "q \<in> set (positions s)" "id_pos q = j"
    using find_id_mem [of j "positions s" q] by (simp_all add: getPositionById_def)
  with assms(3) have "q \<in> set (getAllOpenPositions s)" by (simp add: set_open)
  from find_id_distinct [OF distinct_ids_open [OF assms(1)] this] q(2)
  show ?thesis by simp
qed

lemma closedStore_ids:
  "map id_pos (positions (closedStore s j q price fee ev now)) = map id_pos (positions s)"
  by (simp add: closedStore_def Let_def comp_def)

lemma closedStore_other:
  "i \<noteq> j \<Longrightarrow> getPositionById (closedStore s j q price fee ev now) i = getPositionById s i"
  by (simp add: closedStore_def Let_def getPositionById_def find_map_row_other)

lemma closedStore_self:
  assumes "getPositionById s j = Some q"
  shows "\<exists>p'. getPositionById (closedStore s j q price fee ev now) j = Some p'
           \<and> status p' = CLOSED \<and> closePrice p' = Some price"
  using assms
  by (simp add: closedStore_def getPositionById_def find_map_row Let_def closeRow_def)

lemma closedStore_events:
  "map event_ev (eventsFor (closedStore s j q price fee ev now) i)
     = map event_ev (eventsFor s i) @ (if i = j then [ev] else [])"
  by (simp add: closedStore_def Let_def eventsFor_def)

lemma executeTrigger_fires:
  assumes "distinct (map id_pos (positions s))"
    and "getPositionById s j = Some q" and "status q = OPEN"
  shows "\<exists>fee out. executeTrigger s j price ev now = (closedStore s j q price fee ev now, out)
           \<and> (\<forall>i. triggersFor i out = (if i = j then [ev] else []))"
proof -
  let ?fee = "calculateTakerFee s (calculateNotional (qty q) price)"
  have "executeTrigger s j price ev now =
          (closedStore s j q price ?fee ev now,
           TriggerExecuted j ev price
              (realizedPnl (closeRow price now (realizedPnlOf q price ?fee) ?fee q))
            # (if filter (\<lambda>p. symbol p = symbol q)
                    (getAllOpenPositions (closedStore s j q price ?fee ev now)) = []
               then [Unsubscribe (symbol q)] else []))"
    by (simp add: executeTrigger_def open_lookup [OF assms] closePosition_open [OF assms(2,3)]
        Let_def)
  then show ?thesis by (intro exI [of _ ?fee]) auto
qed

lemma fired_Cons:
  "fired m (q # rest) i = (if id_pos q = i then firedEvent m q else fired m rest i)"
  by (simp add: fired_def)

lemma fired_absent: "i \<notin> id_pos ` set ps \<Longrightarrow> fired m ps i = []"
  by (simp add: fired_def find_id_None [symmetric])

lemma triggerLoop_effect:
  assumes "distinct (map id_pos (positions s))" and "distinct (map id_pos ps)"
    and "\<forall>q\<in>set ps. getPositionById s (id_pos q) = Some q \<and> status q = OPEN"
    and "triggerLoop s m now ps = (s', out)"
  shows "map event_ev (eventsFor s' i) = map event_ev (eventsFor s i) @ fired m ps i
       \<and> triggersFor i out = fired m ps i
       \<and> (if fired m ps i = [] then getPositionById s' i = getPositionById s i
          else \<exists>p'. getPositionById s' i = Some p' \<and> status p' = CLOSED
                 \<and> closePrice p' = Some m)"
  using assms
proof (induction ps arbitrary: s s' out)
  case Nil
  then show ?case by (simp add: fired_def)
next
  case (Cons q rest)
  have q: "getPositionById s (id_pos q) = Some q" "status q = OPEN"
    using Cons.prems(3) by simp_all
  have fresh: "id_pos q \<notin> id_pos ` set rest" using Cons.prems(2) by auto
  have drest: "distinct (map id_pos rest)" using Cons.prems(2) by simp
  show ?case
  proof (cases "firedEvent m q = []")
    case True
    then have none: "\<not> shouldTriggerSL (side q) m (sl q)" "\<not> shouldTriggerTP (side q) m (tp q)"
      by (auto simp: firedEvent_def split: if_splits)
    with Cons.prems(4) have run: "triggerLoop s m now rest = (s', out)" by simp
    have pre: "\<forall>r\<in>set rest. getPositionById s (id_pos r) = Some r \<and> status r = OPEN"
      using Cons.prems(3) by simp
    from Cons.IH [OF Cons.prems(1) drest pre run]
    show ?thesis
      using True fresh by (auto simp: fired_Cons fired_absent)
  next
    case False
    then obtain ev where ev: "firedEvent m q = [ev]"
      by (auto simp: firedEvent_def split: if_splits)
    from executeTrigger_fires [OF Cons.prems(1) q, of m ev now]
    obtain fee out1 where ex: "executeTrigger s (id_pos q) m ev now
          = (closedStore s (id_pos q) q m fee ev now, out1)"
      and out1: "\<And>i. triggersFor i out1 = (if i = id_pos q then [ev] else [])"
      by blast
    let ?s1 = "closedStore s (id_pos q) q m fee ev now"
    obtain s2 out2 where run: "triggerLoop ?s1 m now rest = (s2, out2)"
      by (cases "triggerLoop ?s1 m now rest") auto
    have whole: "s' = s2" "out = out1 @ out2"
      using Cons.prems(4) ev ex run
      by (auto simp: firedEvent_def split: if_splits)
    have d1: "distinct (map id_pos (positions ?s1))"
      using Cons.prems(1) by (simp add: closedStore_ids)
    have pre: "\<forall>r\<in>set rest. getPositionById ?s1 (id_pos r) = Some r \<and> status r = OPEN"
    proof
      fix r assume r: "r \<in> set rest"
      with fresh have "id_pos r \<noteq> id_pos q" by (metis imageI)
      with Cons.prems(3) r show "getPositionById ?s1 (id_pos r) = Some r \<and> status r = OPEN"
        by (simp add: closedStore_other)
    qed
    note ih = Cons.IH [OF d1 drest pre run, unfolded closedStore_events]
    show ?thesis
    proof (cases "i = id_pos q")
      case True
      have "fired m rest i = []" using fresh True by (simp add: fired_absent)
      with ih closedStore_self [OF q(1), of m fee ev now] True ev out1 [of i]
      show ?thesis
        by (auto simp: whole fired_Cons closedStore_events)
    next
      case False
      with ih out1 [of i] show ?thesis
        by (auto simp: whole fired_Cons closedStore_other closedStore_events)
    qed
  qed
qed


lemma length_fired: "length (fired m ps i) \<le> 1"
  by (simp add: fired_def firedEvent_def split: option.splits)

text \<open>
  C3. On a tick, every OPEN position of the tick's symbol for which both the stop-loss
  and the take-profit predicate hold is closed at the mark price; the tick adds exactly
  one event to its log, SL_TRIGGERED, and emits exactly one \<open>triggerExecuted\<close> for it,
  SL_TRIGGERED, so no TP_TRIGGERED. For every position the tick emits at most one trigger
  and logs at most one event.
\<close>

theorem trigger_priority:
  assumes "distinct (map id_pos (positions s))"
    and "p \<in> set (positions s)" and "status p = OPEN" and "symbol p = tickSymbol"
    and "shouldTriggerSL (side p) markPrice (sl p)"
    and "shouldTriggerTP (side p) markPrice (tp p)"
    and "checkTriggersForSymbol s tickSymbol markPrice now = (s', out)"
  shows "(\<exists>p'. getPositionById s' (id_pos p) = Some p' \<and> status p' = CLOSED
             \<and> closePrice p' = Some markPrice)
       \<and> map event_ev (eventsFor s' (id_pos p))
           = map event_ev (eventsFor s (id_pos p)) @ [SL_TRIGGERED]
       \<and> triggersFor (id_pos p) out = [SL_TRIGGERED]
       \<and> (\<forall>i. length (triggersFor i out) \<le> 1
              \<and> length (eventsFor s' i) \<le> Suc (length (eventsFor s i)))"
proof -
  let ?ps = "filter (\<lambda>q. symbol q = tickSymbol) (getAllOpenPositions s)"
  have dps: "distinct (map id_pos ?ps)"
    using distinct_ids_open [OF assms(1)] by (rule distinct_map_filter)
  have pre: "\<forall>q\<in>set ?ps. getPositionById s (id_pos q) = Some q \<and> status q = OPEN"
    using find_id_distinct [OF assms(1)] by (auto simp: set_open getPositionById_def)
  have run: "triggerLoop s markPrice now ?ps = (s', out)"
    using assms(7) by (simp add: checkTriggersForSymbol_def)
  note eff = triggerLoop_effect [OF assms(1) dps pre run]
  have "p \<in> set ?ps" using assms(2,3,4) by (simp add: set_open)
  from find_id_distinct [OF dps this]
  have fp: "fired markPrice ?ps (id_pos p) = [SL_TRIGGERED]"
    using assms(5) by (simp add: fired_def firedEvent_def)
  have one: "length (triggersFor i out) \<le> 1
           \<and> length (eventsFor s' i) \<le> Suc (length (eventsFor s i))" for i
  proof -
    from eff [of i] have t: "triggersFor i out = fired markPrice ?ps i"
      and e: "map event_ev (eventsFor s' i)
                = map event_ev (eventsFor s i) @ fired markPrice ?ps i" by simp_all
    from e have "length (eventsFor s' i) = length (eventsFor s i) + length (fired markPrice ?ps i)"
      by (metis length_append length_map)
    with t length_fired [of markPrice ?ps i] show ?thesis by simp
  qed
  from eff [of "id_pos p"] fp one show ?thesis by auto
qed

lemma demoBoth_run:
  "checkTriggersForSymbol demoBothStore ''BTCUSDT'' 94 2000
     = (fst (checkTriggersForSymbol demoBothStore ''BTCUSDT'' 94 2000),
        snd (checkTriggersForSymbol demoBothStore ''BTCUSDT'' 94 2000))"
  by simp

theorem trigger_priority_witness:
  "shouldTriggerSL (side demoBoth) 94 (sl demoBoth) \<and> shouldTriggerTP (side demoBoth) 94 (tp demoBoth)
   \<and> map event_ev (eventsFor (fst (checkTriggersForSymbol demoBothStore ''BTCUSDT'' 94 2000)) 1)
        = [POSITION_CREATED, SL_TRIGGERED]
   \<and> triggersFor 1 (snd (checkTriggersForSymbol demoBothStore ''BTCUSDT'' 94 2000))
        = [SL_TRIGGERED]"
proof -
  have d: "distinct (map id_pos (positions demoBothStore))" by code_simp
  have p: "demoBoth \<in> set (positions demoBothStore)" "status demoBoth = OPEN"
    "symbol demoBoth = ''BTCUSDT''" "id_pos demoBoth = 1"
    by (simp_all add: demoBothStore_def demoBoth_def demoLong_def)
  have both: "shouldTriggerSL (side demoBoth) 94 (sl demoBoth)"
    "shouldTriggerTP (side demoBoth) 94 (tp demoBoth)" by code_simp+
  have before: "map event_ev (eventsFor demoBothStore 1) = [POSITION_CREATED]" by code_simp
  from trigger_priority [OF d p(1,2,3) both demoBoth_run] before both
  show ?thesis by (simp add: p(4))
qed

end
